theory Spec2Isabelle
  imports Main "HOL-Library.AList"
begin

section \<open>JavaScript values\<close>

text \<open>
  The entity cache works on plain data as it arrives from the server: JSON-like trees.
  A value is one of the cases of \<open>jv\<close>. An object is the list of its own enumerable
  properties in the order \<open>Object.entries\<close> enumerates them; assigning to an absent
  key appends it, assigning to a present key keeps its place. Numbers are integers
  (permission levels, hit points, sort keys); \<open>NaN\<close> and fractions are outside the
  model. Values are trees: no object is reachable along two paths, as is the case for
  data parsed from a socket message. Property names are assumed not to be names of
  members of \<open>Object.prototype\<close>, and not canonical array indices (which JavaScript
  enumerates before all other keys).
\<close>

datatype jv =
    JUndefined
  | JNull
  | JBool bool
  | JNum int
  | JStr string
  | JArr "jv list"
  | JObj "(string \<times> jv) list"

type_synonym obj = "(string \<times> jv) list"

text \<open>Everything the modelled code can throw.\<close>

datatype error =
    NotObjects            \<comment> \<open>"One of original or other are not Objects!"\<close>
  | MismatchedTypes       \<comment> \<open>"Mismatched data types encountered during object merge."\<close>
  | MaxDepthExceeded      \<comment> \<open>"Maximum depth exceeded"\<close>
  | NotAnObject           \<comment> \<open>"The provided data is not an object!"\<close>
  | MissingId             \<comment> \<open>"You must provide an _id for every ... in the data Array."\<close>
  | KeyDoesNotExist       \<comment> \<open>"The key ... does not exist in the ... Collection"\<close>
  | InvalidEmbedded       \<comment> \<open>"... is not a valid Embedded Entity in a ..."\<close>
  | MustDefine            \<comment> \<open>"The ... subclass must define ..."\<close>
  | WrongInstance         \<comment> \<open>"You may only push instances of ... to the ... collection"\<close>
  | TypeError             \<comment> \<open>raised by the JavaScript runtime itself\<close>
  | Rejected              \<comment> \<open>the transport answered with an error\<close>
  | Unmodelled            \<comment> \<open>the source leaves the value model (named properties on arrays, ...)\<close>

definition keys :: "obj \<Rightarrow> string list" where
  "keys ob = map fst ob"

definition hasOwnProperty :: "obj \<Rightarrow> string \<Rightarrow> bool" where
  "hasOwnProperty ob k = (k \<in> set (keys ob))"

definition get_prop :: "obj \<Rightarrow> string \<Rightarrow> jv" where
  "get_prop ob k = (case map_of ob k of None \<Rightarrow> JUndefined | Some v \<Rightarrow> v)"

definition assign :: "obj \<Rightarrow> string \<Rightarrow> jv \<Rightarrow> obj" where
  "assign ob k v = AList.update k v ob"

definition delete_key :: "obj \<Rightarrow> string \<Rightarrow> obj" where
  "delete_key ob k = AList.delete k ob"

text \<open>\<open>!!v\<close>: the values JavaScript treats as true in a condition.\<close>

fun truthy :: "jv \<Rightarrow> bool" where
  "truthy JUndefined = False"
| "truthy JNull = False"
| "truthy (JBool b) = b"
| "truthy (JNum n) = (n \<noteq> 0)"
| "truthy (JStr s) = (s \<noteq> [])"
| "truthy (JArr xs) = True"
| "truthy (JObj ob) = True"

text \<open>
  \<open>getType\<close> (utils): \<open>typeof\<close>, refined for objects into \<open>null\<close>, \<open>Array\<close> and
  \<open>Object\<close>. The wrapper classes, \<open>Set\<close> and DOM elements do not occur in plain data.
\<close>

fun getType :: "jv \<Rightarrow> string" where
  "getType JUndefined = ''undefined''"
| "getType JNull = ''null''"
| "getType (JBool b) = ''boolean''"
| "getType (JNum n) = ''number''"
| "getType (JStr s) = ''string''"
| "getType (JArr xs) = ''Array''"
| "getType (JObj ob) = ''Object''"

definition isObjectEmpty :: "jv \<Rightarrow> error + bool" where
  "isObjectEmpty v =
     (if getType v \<noteq> ''Object'' then Inl NotAnObject
      else case v of JObj ob \<Rightarrow> Inr (keys ob = []) | _ \<Rightarrow> Inl NotAnObject)"

section \<open>Dot paths: \<open>setProperty\<close> and \<open>expandObject\<close>\<close>

text \<open>\<open>key.split(".")\<close>\<close>

fun split_dot :: "string \<Rightarrow> string list" where
  "split_dot [] = [[]]"
| "split_dot (c # cs) =
     (if c = CHR ''.'' then [] # split_dot cs
      else (case split_dot cs of [] \<Rightarrow> [[c]] | p # ps \<Rightarrow> (c # p) # ps))"

definition has_dot :: "string \<Rightarrow> bool" where
  "has_dot k = (CHR ''.'' \<in> set k)"

text \<open>
  \<open>if (target[key] !== value) { changed = true; target[key] = value; }\<close> on a target
  that is an object. The values compared are a primitive, or an array or object that
  the target does not hold yet (values are trees, and \<open>expandObject\<close> builds its
  objects afresh): where the two differ as values the key is assigned, and where they
  are the same value the target is as it would be after the assignment, except that a
  key that is absent is not created for the value \<open>undefined\<close>.
\<close>

definition assign_changed :: "obj \<Rightarrow> string \<Rightarrow> jv \<Rightarrow> obj" where
  "assign_changed target key val =
     (if get_prop target key \<noteq> val then assign target key val else target)"

text \<open>
  The \<open>parts.reduce\<close> of \<open>setProperty\<close> followed by the update of the target, on
  values: the object comes back with the target updated inside it. A missing step of
  the path is created as \<open>{}\<close>. A step that is \<open>null\<close> or \<open>undefined\<close> makes the next
  property access a \<open>TypeError\<close>. A step that is a number, string, boolean or array
  takes the source out of the value model (strict-mode assignment to a primitive,
  named properties on an array): the model answers \<open>Unmodelled\<close> there.
  The flag \<open>changed\<close> that \<open>setProperty\<close> returns is not used by the code modelled here.
\<close>

fun setPath :: "obj \<Rightarrow> string list \<Rightarrow> string \<Rightarrow> jv \<Rightarrow> error + obj" where
  "setPath ob [] key val = Inr (assign_changed ob key val)"
| "setPath ob (i # parts) key val =
     (let ob1 = (if \<not> hasOwnProperty ob i then assign ob i (JObj []) else ob) in
      case get_prop ob1 i of
        JObj child \<Rightarrow>
          (case setPath child parts key val of
             Inl e \<Rightarrow> Inl e
           | Inr child' \<Rightarrow> Inr (assign ob1 i (JObj child')))
      | JNull \<Rightarrow> Inl TypeError
      | JUndefined \<Rightarrow> Inl TypeError
      | _ \<Rightarrow> Inl Unmodelled)"

definition setProperty :: "obj \<Rightarrow> string \<Rightarrow> jv \<Rightarrow> error + obj" where
  "setProperty ob key val =
     (if has_dot key
      then (let parts = split_dot key in setPath ob (butlast parts) (last parts) val)
      else Inr (assign_changed ob key val))"

text \<open>
  \<open>expandObject(obj, _d)\<close>: the loop over \<open>Object.entries(obj)\<close> is \<open>expandEntries\<close>,
  with the object under construction as accumulator.
\<close>

fun expandObject :: "nat \<Rightarrow> obj \<Rightarrow> error + obj"
  and expandEntries :: "nat \<Rightarrow> obj \<Rightarrow> obj \<Rightarrow> error + obj" where
  "expandObject d ob = (if d > 10 then Inl MaxDepthExceeded else expandEntries d [] ob)"
| "expandEntries d expanded [] = Inr expanded"
| "expandEntries d expanded ((k, v) # rest) =
     (case (case v of
              JObj vo \<Rightarrow> (case expandObject (d + 1) vo of Inl e \<Rightarrow> Inl e | Inr vo' \<Rightarrow> Inr (JObj vo'))
            | _ \<Rightarrow> Inr v) of
        Inl e \<Rightarrow> Inl e
      | Inr v' \<Rightarrow>
          (case setProperty expanded k v' of
             Inl e \<Rightarrow> Inl e
           | Inr expanded' \<Rightarrow> expandEntries d expanded' rest))"

text \<open>
  \<open>duplicate\<close>: \<open>JSON.parse(JSON.stringify(original))\<close>. A property whose value is
  \<open>undefined\<close> is dropped, an \<open>undefined\<close> array element becomes \<open>null\<close>.
\<close>

fun duplicate :: "jv \<Rightarrow> jv"
  and duplicate_entries :: "obj \<Rightarrow> obj"
  and duplicate_elements :: "jv list \<Rightarrow> jv list" where
  "duplicate (JObj ob) = JObj (duplicate_entries ob)"
| "duplicate (JArr xs) = JArr (duplicate_elements xs)"
| "duplicate v = v"
| "duplicate_entries [] = []"
| "duplicate_entries ((k, v) # rest) =
     (if v = JUndefined then duplicate_entries rest else (k, duplicate v) # duplicate_entries rest)"
| "duplicate_elements [] = []"
| "duplicate_elements (x # xs) =
     (if x = JUndefined then JNull else duplicate x) # duplicate_elements xs"

section \<open>\<open>mergeObject\<close>\<close>

record merge_options =
  insertKeys :: bool
  insertValues :: bool
  overwrite :: bool
  inplace :: bool
  enforceTypes :: bool

definition default_options :: merge_options where
  "default_options =
     \<lparr> insertKeys = True, insertValues = True, overwrite = True, inplace = True,
       enforceTypes = False \<rparr>"

text \<open>\<open>k.startsWith("-=")\<close> and \<open>k.slice(2)\<close>: the key an entry of \<open>other\<close> addresses.\<close>

definition strip_key :: "string \<Rightarrow> string" where
  "strip_key k0 = (if take 2 k0 = ''-='' then drop 2 k0 else k0)"

text \<open>
  The loop \<open>for (let [k, v] of Object.entries(other))\<close> at recursion depth
  \<open>depth = _d + 1\<close> is \<open>mergeEntries\<close>, its body for one entry is \<open>mergeEntry\<close>.
  The test \<open>tv === "Object" && tx === "Object"\<close> is the match on two \<open>JObj\<close>. In the
  type check, \<open>tx\<close> is a non-empty string, hence true. The recursive call is
  \<open>mergeObject(x, v, {..., inplace: true}, depth)\<close>: with \<open>_d > 0\<close> nothing but the
  loop runs, and \<open>x\<close> is updated where it is.
\<close>

fun mergeEntry :: "merge_options \<Rightarrow> nat \<Rightarrow> obj \<Rightarrow> string \<Rightarrow> jv \<Rightarrow> error + obj"
  and mergeEntries :: "merge_options \<Rightarrow> nat \<Rightarrow> obj \<Rightarrow> obj \<Rightarrow> error + obj" where
  "mergeEntry opts depth original k0 v =
     (let tv = getType v;
          k = strip_key k0;
          toDelete = (take 2 k0 = ''-='' \<and> v = JNull);
          original1 = (if \<not> hasOwnProperty original k \<and> tv = ''Object''
                       then assign original k (JObj []) else original);
          x = get_prop original1 k;
          has = hasOwnProperty original1 k;
          tx = getType x
      in
        if has then
          (case (v, x) of
             (JObj vo, JObj xo) \<Rightarrow>
               (case mergeEntries opts (depth + 1) xo vo of
                  Inl e \<Rightarrow> Inl e
                | Inr xo' \<Rightarrow> Inr (assign original1 k (JObj xo')))
           | _ \<Rightarrow>
               if toDelete then Inr (delete_key original1 k)
               else if overwrite opts then
                 (if tv \<noteq> tx \<and> enforceTypes opts then Inl MismatchedTypes
                  else Inr (assign original1 k v))
               else if x = JUndefined \<and> insertValues opts then Inr (assign original1 k v)
               else Inr original1)
        else if \<not> toDelete then
          (let canInsert = ((depth = 1 \<and> insertKeys opts) \<or> (depth > 1 \<and> insertValues opts))
           in if canInsert then Inr (assign original1 k v) else Inr original1)
        else Inr original1)"
| "mergeEntries opts depth original [] = Inr original"
| "mergeEntries opts depth original ((k0, v) # rest) =
     (case mergeEntry opts depth original k0 v of
        Inl e \<Rightarrow> Inl e
      | Inr original' \<Rightarrow> mergeEntries opts depth original' rest)"

text \<open>
  \<open>if (_d === 0 && Object.keys(x).some((k) => /\./.test(k))) x = expandObject(x)\<close>,
  which \<open>mergeObject\<close> applies to \<open>original\<close> and to \<open>other\<close>.
\<close>

definition expand_dotted :: "obj \<Rightarrow> error + obj" where
  "expand_dotted ob = (if \<exists>k \<in> set (keys ob). has_dot k then expandObject 0 ob else Inr ob)"

text \<open>
  \<open>mergeObject(original, other, options)\<close> as called from outside (\<open>_d = 0\<close>).
  \<open>other = other || {}\<close>, then the guard: a value that is not \<open>instanceof Object\<close>
  throws. An array passes the guard in the source and is then merged by its indices,
  which the value model does not follow. The result is the returned object.
\<close>

definition mergeObject :: "merge_options \<Rightarrow> jv \<Rightarrow> jv \<Rightarrow> error + obj" where
  "mergeObject opts original other =
     (case (original, if truthy other then other else JObj []) of
        (JObj a, JObj b) \<Rightarrow>
          (case expand_dotted (if \<not> inplace opts then duplicate_entries a else a) of
             Inl e \<Rightarrow> Inl e
           | Inr original2 \<Rightarrow>
               (case expand_dotted b of
                  Inl e \<Rightarrow> Inl e
                | Inr other2 \<Rightarrow> mergeEntries opts 1 original2 other2))
      | (JArr xs, _) \<Rightarrow> Inl Unmodelled
      | (_, JArr ys) \<Rightarrow> Inl Unmodelled
      | _ \<Rightarrow> Inl NotObjects)"

section \<open>Reading the result of a merge\<close>

text \<open>
  A plain object: at every depth its keys differ from one another (as the keys of an
  object do) and none starts with \<open>-=\<close>. Arrays are leaves: a merge assigns them whole.
\<close>

fun plain :: "jv \<Rightarrow> bool"
  and plain_entries :: "obj \<Rightarrow> bool" where
  "plain (JObj ob) = plain_entries ob"
| "plain v = True"
| "plain_entries [] = True"
| "plain_entries ((k, v) # rest) =
     (take 2 k \<noteq> ''-='' \<and> k \<notin> set (keys rest) \<and> plain v \<and> plain_entries rest)"

text \<open>The keys of an object differ from one another, at every depth below it.\<close>

fun distinct_keys :: "jv \<Rightarrow> bool"
  and distinct_entries :: "obj \<Rightarrow> bool" where
  "distinct_keys (JObj ob) = distinct_entries ob"
| "distinct_keys v = True"
| "distinct_entries [] = True"
| "distinct_entries ((k, v) # rest) =
     (k \<notin> set (keys rest) \<and> distinct_keys v \<and> distinct_entries rest)"

text \<open>
  \<open>reflects r v\<close>: the value \<open>r\<close> carries the incoming value \<open>v\<close>. For an object \<open>v\<close>,
  \<open>r\<close> is an object that has every key of \<open>v\<close>, with a value that carries the value
  \<open>v\<close> has there; for any other \<open>v\<close>, \<open>r\<close> is \<open>v\<close>.
\<close>

fun reflects :: "jv \<Rightarrow> jv \<Rightarrow> bool"
  and reflects_entries :: "obj \<Rightarrow> obj \<Rightarrow> bool" where
  "reflects r (JObj vo) = (case r of JObj ro \<Rightarrow> reflects_entries ro vo | _ \<Rightarrow> False)"
| "reflects r v = (r = v)"
| "reflects_entries ro [] = True"
| "reflects_entries ro ((k, v) # rest) =
     ((case map_of ro k of None \<Rightarrow> False | Some r \<Rightarrow> reflects r v) \<and> reflects_entries ro rest)"

text \<open>
  \<open>kept a r\<close>: no value that exists in \<open>a\<close> and is not \<open>undefined\<close> has been replaced in
  \<open>r\<close>. For an object \<open>a\<close>, \<open>r\<close> is an object in which every key of \<open>a\<close> whose value is
  not \<open>undefined\<close> is still there, with that value kept; for any other \<open>a\<close>, \<open>r\<close> is \<open>a\<close>.
\<close>

fun kept :: "jv \<Rightarrow> jv \<Rightarrow> bool"
  and kept_entries :: "obj \<Rightarrow> obj \<Rightarrow> bool" where
  "kept (JObj ao) r = (case r of JObj ro \<Rightarrow> kept_entries ao ro | _ \<Rightarrow> False)"
| "kept a r = (r = a)"
| "kept_entries [] ro = True"
| "kept_entries ((k, a) # rest) ro =
     ((a = JUndefined \<or> (case map_of ro k of None \<Rightarrow> False | Some r \<Rightarrow> kept a r))
      \<and> kept_entries rest ro)"

fun is_object :: "jv \<Rightarrow> bool" where
  "is_object (JObj ob) = True"
| "is_object v = False"

section \<open>\<open>diffObject\<close>\<close>

text \<open>
  Modelled from the spec: \<open>Array.prototype.equals\<close>, which \<open>diffObject\<close> calls on two
  arrays, is defined nowhere under src/. The spec says of \<open>diffObject\<close> that "array
  values are compared by element-wise equality, not reference": two arrays are equal
  when they have the same length and equal elements at every index.
\<close>

definition equals :: "jv list \<Rightarrow> jv list \<Rightarrow> bool" where
  "equals xs ys = (length xs = length ys \<and> list_all2 (\<lambda>x y. x = y) xs ys)"

lemma size_get_prop:
  "key \<in> set (keys other) \<Longrightarrow> size (get_prop other key) < size (JObj other)"
proof (induction other)
  case Nil
  then show ?case by (simp add: keys_def)
next
  case (Cons p other)
  show ?case
  proof (cases "fst p = key")
    case True
    then show ?thesis by (cases p) (simp add: get_prop_def)
  next
    case False
    with Cons.prems have "key \<in> set (keys other)" by (auto simp: keys_def)
    from Cons.IH [OF this] False show ?thesis
      by (cases p) (simp add: get_prop_def)
  qed
qed

text \<open>
  \<open>diffObject(original, other)\<close> with its inner function \<open>_difference(v0, v1)\<close>.
  The \<open>reduce\<close> runs over \<open>Object.keys(other)\<close> and reads \<open>original[key]\<close> and
  \<open>other[key]\<close>. \<open>isObjectEmpty\<close> is only reached on two values of type \<open>Object\<close>,
  where it cannot throw.
\<close>

function diffObject :: "obj \<Rightarrow> obj \<Rightarrow> obj"
  and difference :: "jv \<Rightarrow> jv \<Rightarrow> bool \<times> jv" where
  "diffObject original other =
     fold (\<lambda>key ob.
             (case difference (get_prop original key) (get_prop other key) of
                (isDifferent, d) \<Rightarrow> if isDifferent then assign ob key d else ob))
          (keys other) []"
| "difference v0 v1 =
     (if getType v0 \<noteq> getType v1 then (True, v1)
      else case (v0, v1) of
        (JArr a0, JArr a1) \<Rightarrow> (\<not> equals a0 a1, v1)
      | (JObj o0, JObj o1) \<Rightarrow>
          (if (keys o0 = []) \<noteq> (keys o1 = []) then (True, v1)
           else (let d = diffObject o0 o1 in (keys d \<noteq> [], JObj d)))
      | _ \<Rightarrow> (v0 \<noteq> v1, v1))"
  by pat_completeness auto
termination
  by (relation "measure (\<lambda>x. case x of
         Inl (original, other) \<Rightarrow> 2 * size (JObj other)
       | Inr (v0, v1) \<Rightarrow> 2 * size v1 + 1)")
     (auto dest: size_get_prop)


declare diffObject.simps [simp del] difference.simps [simp del]

section \<open>Permissions\<close>

text \<open>
  Modelled from the spec: \<open>ENTITY_PERMISSIONS\<close> is imported from \<open>../constants\<close>, a file
  that is not under src/. The spec gives the levels as "an ordered enumeration
  {NONE=0, LIMITED=1, OBSERVER=2, OWNER=3}".
\<close>

definition ENTITY_PERMISSIONS :: obj where
  "ENTITY_PERMISSIONS =
     [(''NONE'', JNum 0), (''LIMITED'', JNum 1), (''OBSERVER'', JNum 2), (''OWNER'', JNum 3)]"

text \<open>The acting user, \<open>window.game.user\<close>: its \<open>_id\<close> and its \<open>isGM\<close> flag.\<close>

record user =
  user_id :: string
  isGM :: bool

text \<open>
  \<open>v[k]\<close> for a string \<open>k\<close>. Reading a property of \<open>null\<close> or \<open>undefined\<close> throws;
  a number or boolean has no own property; strings and arrays have indices and
  \<open>length\<close>, which the model does not follow.
\<close>

fun member :: "jv \<Rightarrow> string \<Rightarrow> error + jv" where
  "member (JObj ob) k = Inr (get_prop ob k)"
| "member JUndefined k = Inl TypeError"
| "member JNull k = Inl TypeError"
| "member (JBool b) k = Inr JUndefined"
| "member (JNum n) k = Inr JUndefined"
| "member (JStr s) k = Inl Unmodelled"
| "member (JArr xs) k = Inl Unmodelled"

text \<open>\<open>d._id\<close> for a record \<open>d\<close> that is an object (\<open>undefined\<close> when it has none).\<close>

definition raw_id :: "jv \<Rightarrow> jv" where
  "raw_id d = (case d of JObj ob \<Rightarrow> get_prop ob ''_id'' | _ \<Rightarrow> JUndefined)"

text \<open>The getter \<open>permission\<close> of an Entity, for the acting user \<open>u\<close> and the Entity's data.\<close>

definition Entity_permission :: "user \<Rightarrow> jv \<Rightarrow> error + jv" where
  "Entity_permission u edata =
     (if isGM u then Inr (get_prop ENTITY_PERMISSIONS ''OWNER'')
      else case member edata ''permission'' of
        Inl e \<Rightarrow> Inl e
      | Inr pm \<Rightarrow>
          (case member pm (user_id u) of
             Inl e \<Rightarrow> Inl e
           | Inr userPerm \<Rightarrow> if truthy userPerm then Inr userPerm else member pm ''default''))"

text \<open>\<open>Number.isInteger\<close>, and \<open>a >= b\<close> with its conversion of both sides to numbers
  (\<open>None\<close> is \<open>NaN\<close>, which compares false); the conversion of strings, arrays and
  objects is not followed.\<close>

fun isInteger :: "jv \<Rightarrow> bool" where
  "isInteger (JNum n) = True"
| "isInteger v = False"

fun toNumber :: "jv \<Rightarrow> error + int option" where
  "toNumber (JNum n) = Inr (Some n)"
| "toNumber JNull = Inr (Some 0)"
| "toNumber (JBool b) = Inr (Some (if b then 1 else 0))"
| "toNumber JUndefined = Inr None"
| "toNumber v = Inl Unmodelled"

definition js_ge :: "jv \<Rightarrow> jv \<Rightarrow> error + bool" where
  "js_ge a b =
     (case toNumber a of
        Inl e \<Rightarrow> Inl e
      | Inr x \<Rightarrow>
          (case toNumber b of
             Inl e \<Rightarrow> Inl e
           | Inr y \<Rightarrow>
               (case (x, y) of
                  (Some m, Some n) \<Rightarrow> Inr (m \<ge> n)
                | _ \<Rightarrow> Inr False)))"

text \<open>
  \<open>hasPerm(user, permission, exact)\<close> on the Entity's data, \<open>permission\<close> being a
  level name. \<open>perm\<close> is a number or \<open>undefined\<close>, so \<open>level === perm\<close> is equality
  of values.
\<close>

definition hasPerm :: "jv \<Rightarrow> user \<Rightarrow> string \<Rightarrow> bool \<Rightarrow> error + bool" where
  "hasPerm edata u permission exact =
     (case member edata ''permission'' of
        Inl e \<Rightarrow> Inl e
      | Inr pm \<Rightarrow>
          if \<not> truthy pm then Inr (isGM u)
          else
            (case member pm (user_id u) of
               Inl e \<Rightarrow> Inl e
             | Inr level0 \<Rightarrow>
                 (case (if isInteger level0 then Inr level0 else member pm ''default'') of
                    Inl e \<Rightarrow> Inl e
                  | Inr level \<Rightarrow>
                      (let perm = get_prop ENTITY_PERMISSIONS permission in
                       if exact then Inr (level = perm)
                       else if isGM u then Inr True
                       else js_ge level perm))))"

section \<open>Entity\<close>

text \<open>
  What a subclass must supply: \<open>config\<close> (the base class throws "must define") with the
  name of its base entity and its embedded collections (embedded name, field of the
  data that holds the array), and \<open>_constructEmbeddedEntity\<close> (abstract as well).
  Everything else is the code of the base class \<open>Entity\<close>.
\<close>

record entity_class =
  baseEntity :: string
  embeddedEntities :: "(string \<times> string) list"
  constructEmbeddedEntity :: "string \<Rightarrow> jv \<Rightarrow> error + jv"

text \<open>
  An Entity instance: \<open>this.data\<close>, \<open>this.options\<close>, and the arrays that
  \<open>prepareEmbeddedEntities\<close> stores on the instance under the field names of the
  embedded collections.
\<close>

record entity =
  data :: jv
  options :: jv
  embedded :: "(string \<times> jv list) list"

definition entity_id :: "entity \<Rightarrow> jv" where
  "entity_id e = (case data e of JObj ob \<Rightarrow> get_prop ob ''_id'' | _ \<Rightarrow> JUndefined)"

definition prepareData :: "entity_class \<Rightarrow> entity \<Rightarrow> entity" where
  "prepareData cls e =
     (case data e of
        JObj ob \<Rightarrow>
          if hasOwnProperty ob ''name'' \<and> \<not> truthy (get_prop ob ''name'')
          then e\<lparr>data := JObj (assign ob ''name'' (JStr (''New '' @ baseEntity cls)))\<rparr>
          else e
      | _ \<Rightarrow> e)"

text \<open>\<open>array.map(f)\<close> for an \<open>f\<close> that can throw: the first exception ends the map.\<close>

fun map_throwing :: "('a \<Rightarrow> error + 'b) \<Rightarrow> 'a list \<Rightarrow> error + 'b list" where
  "map_throwing f [] = Inr []"
| "map_throwing f (x # xs) =
     (case f x of
        Inl e \<Rightarrow> Inl e
      | Inr y \<Rightarrow> (case map_throwing f xs of Inl e \<Rightarrow> Inl e | Inr ys \<Rightarrow> Inr (y # ys)))"

text \<open>
  \<open>prepareEmbeddedEntities\<close>: the loop over \<open>Object.entries(config.embeddedEntities)\<close>.
  It returns the instance as the loop left it and the exception that ended it, if any.
\<close>

fun prepareEmbedded :: "entity_class \<Rightarrow> (string \<times> string) list \<Rightarrow> entity \<Rightarrow> error option \<times> entity" where
  "prepareEmbedded cls [] e = (None, e)"
| "prepareEmbedded cls ((name, field) # rest) e =
     (case member (data e) field of
        Inl err \<Rightarrow> (Some err, e)
      | Inr (JArr ds) \<Rightarrow>
          (case map_throwing (constructEmbeddedEntity cls name) ds of
             Inl err \<Rightarrow> (Some err, e)
           | Inr built \<Rightarrow>
               prepareEmbedded cls rest (e\<lparr>embedded := AList.update field built (embedded e)\<rparr>))
      | Inr _ \<Rightarrow> (Some TypeError, e))"

definition prepareEmbeddedEntities :: "entity_class \<Rightarrow> entity \<Rightarrow> error option \<times> entity" where
  "prepareEmbeddedEntities cls e = prepareEmbedded cls (embeddedEntities cls) e"

text \<open>
  \<open>initialize\<close>: the three steps inside \<open>try\<close>; \<open>catch\<close> writes the exception to the
  console and goes on. The result is the instance and what was written to the console.
\<close>

definition initialize :: "entity_class \<Rightarrow> entity \<Rightarrow> entity \<times> error option" where
  "initialize cls e =
     (case prepareEmbeddedEntities cls (prepareData cls e) of
        (Some err, e') \<Rightarrow> (e', Some err)
      | (None, e') \<Rightarrow> (prepareData cls e', None))"

text \<open>\<open>new Entity(data, options)\<close>\<close>

definition new_Entity :: "entity_class \<Rightarrow> jv \<Rightarrow> jv \<Rightarrow> entity" where
  "new_Entity cls d opts =
     fst (initialize cls
       \<lparr> data = (if truthy d then d else JObj []),
         options = (if truthy opts then opts else JObj []),
         embedded = [] \<rparr>)"

section \<open>EntityCollection\<close>

text \<open>
  A collection is a \<open>Map\<close> from ids to Entity instances, in insertion order, and the raw
  array \<open>_source\<close>. Ids are primitive values, on which the key comparison of \<open>Map\<close> is
  equality. \<open>_source\<close> holds the very objects the instances hold as \<open>data\<close>; the model
  keeps each raw record as it was when it entered the array and does not carry later
  changes of an instance's data over to it.
\<close>

record collection =
  source :: "jv list"
  store :: "(jv \<times> entity) list"

text \<open>\<open>_initialize(data)\<close>: the loop after \<open>this.clear()\<close>.\<close>

fun initialize_entries :: "entity_class \<Rightarrow> jv list \<Rightarrow> (jv \<times> entity) list \<Rightarrow> error + (jv \<times> entity) list" where
  "initialize_entries cls [] st = Inr st"
| "initialize_entries cls (d # ds) st =
     (case member d ''_id'' of
        Inl e \<Rightarrow> Inl e
      | Inr i \<Rightarrow> initialize_entries cls ds (AList.update i (new_Entity cls d JUndefined) st))"

text \<open>\<open>new EntityCollection(data)\<close> for an array \<open>data\<close>\<close>

definition new_EntityCollection :: "entity_class \<Rightarrow> jv list \<Rightarrow> error + collection" where
  "new_EntityCollection cls raw =
     (case initialize_entries cls raw [] of
        Inl e \<Rightarrow> Inl e
      | Inr st \<Rightarrow> Inr \<lparr> source = raw, store = st \<rparr>)"

definition entities :: "collection \<Rightarrow> entity list" where
  "entities c = map snd (store c)"

text \<open>\<open>get(key, {strict})\<close>; \<open>None\<close> is the \<open>null\<close> it returns. A stored entry is an
  instance, hence true in \<open>!entry\<close> and \<open>entry || null\<close>.\<close>

definition collection_get :: "collection \<Rightarrow> jv \<Rightarrow> bool \<Rightarrow> error + entity option" where
  "collection_get c key strict =
     (case map_of (store c) key of
        None \<Rightarrow> if strict then Inl KeyDoesNotExist else Inr None
      | Some e \<Rightarrow> Inr (Some e))"

text \<open>\<open>insert(entity)\<close>; the \<open>instanceof\<close> check passes for the instances a class builds
  for its own collection, the only ones modelled.\<close>

definition insert_entity :: "collection \<Rightarrow> entity \<Rightarrow> collection" where
  "insert_entity c e =
     \<lparr> source = source c @ [data e], store = AList.update (entity_id e) e (store c) \<rparr>"

text \<open>
  \<open>Array.prototype.findSplice(find)\<close>, with \<open>test\<close> for \<open>find\<close>: the array after the call and the item returned
  (\<open>null\<close> when nothing matches). \<open>findIndex\<close> stops at the first match, or at an
  exception of the predicate.
\<close>

fun findSplice :: "('a \<Rightarrow> error + bool) \<Rightarrow> 'a list \<Rightarrow> error + ('a option \<times> 'a list)" where
  "findSplice test [] = Inr (None, [])"
| "findSplice test (x # xs) =
     (case test x of
        Inl e \<Rightarrow> Inl e
      | Inr True \<Rightarrow> Inr (Some x, xs)
      | Inr False \<Rightarrow>
          (case findSplice test xs of
             Inl e \<Rightarrow> Inl e
           | Inr (item, xs') \<Rightarrow> Inr (item, x # xs')))"

text \<open>\<open>remove(id)\<close>\<close>

definition remove :: "collection \<Rightarrow> jv \<Rightarrow> error + collection" where
  "remove c i =
     (case findSplice (\<lambda>e. case member e ''_id'' of Inl err \<Rightarrow> Inl err | Inr v \<Rightarrow> Inr (v = i))
             (source c) of
        Inl err \<Rightarrow> Inl err
      | Inr (item, src') \<Rightarrow> Inr \<lparr> source = src', store = AList.delete i (store c) \<rparr>)"


section \<open>Requests, responses and what the handlers notify\<close>

text \<open>
  A request as the workflows build it, and the response of the server, which echoes the
  request. \<open>parentType\<close> and \<open>parentId\<close> are set on the embedded channel only.
\<close>

record request =
  action :: string
  rtype :: string
  parentType :: string
  parentId :: jv
  rdata :: jv
  roptions :: obj

record response =
  request :: request
  result :: "jv list"
  userId :: jv

text \<open>
  What can be observed of a workflow besides the data: each dispatch on the socket, each
  hook called on an instance (named by its id), each render notification.
\<close>

datatype event =
    Dispatch string request
  | OnCreate jv
  | OnUpdate jv
  | RenderEntity jv
  | RenderCollection string

record world =
  coll :: collection
  events :: "event list"

definition notify :: "event \<Rightarrow> world \<Rightarrow> world" where
  "notify ev w = w\<lparr>events := events w @ [ev]\<rparr>"

text \<open>What a workflow returns: \<open>entities[0]\<close> (\<open>undefined\<close> on an empty array) or the array.\<close>

datatype 'a returned = Undefined | One 'a | Many "'a list"

definition index0 :: "'a list \<Rightarrow> 'a returned" where
  "index0 xs = (case xs of [] \<Rightarrow> Undefined | x # _ \<Rightarrow> One x)"

text \<open>\<open>data.length\<close>\<close>

fun js_length :: "jv \<Rightarrow> error + jv" where
  "js_length (JArr xs) = Inr (JNum (int (length xs)))"
| "js_length (JObj ob) = Inr (get_prop ob ''length'')"
| "js_length (JStr s) = Inr (JNum (int (length s)))"
| "js_length JNull = Inl TypeError"
| "js_length JUndefined = Inl TypeError"
| "js_length v = Inr JUndefined"

section \<open>Create\<close>

text \<open>\<open>_handleCreate\<close>: the \<open>result.map\<close>, then the render of the collection.\<close>

fun handleCreate_map :: "entity_class \<Rightarrow> bool \<Rightarrow> jv list \<Rightarrow> world \<Rightarrow> entity list \<times> world" where
  "handleCreate_map cls temporary [] w = ([], w)"
| "handleCreate_map cls temporary (d # ds) w =
     (let entity = new_Entity cls d JUndefined;
          w1 = (if temporary then w
                else notify (OnCreate (entity_id entity))
                       (w\<lparr>coll := insert_entity (coll w) entity\<rparr>));
          (es, w2) = handleCreate_map cls temporary ds w1
      in (entity # es, w2))"

definition handleCreate :: "entity_class \<Rightarrow> world \<Rightarrow> response \<Rightarrow> entity list \<times> world" where
  "handleCreate cls w resp =
     (let opts = roptions (request resp);
          temporary = truthy (get_prop opts ''temporary'');
          (es, w1) = handleCreate_map cls temporary (result resp) w
      in (es, if get_prop opts ''render'' \<noteq> JBool False
              then notify (RenderCollection ''create'') w1 else w1))"

text \<open>
  \<open>Entity.create(data, options)\<close>. \<open>server\<close> stands for the round trip of
  \<open>SocketInterface.dispatch\<close>: the response, or the error the promise rejects with.
\<close>

definition Entity_create ::
  "entity_class \<Rightarrow> (request \<Rightarrow> error + response) \<Rightarrow> world \<Rightarrow> jv \<Rightarrow> jv
     \<Rightarrow> (error + entity returned) \<times> world" where
  "Entity_create cls server w d opts0 =
     (case mergeObject default_options
             (JObj [(''temporary'', JBool False), (''renderSheet'', JBool False)]) opts0 of
        Inl e \<Rightarrow> (Inl e, w)
      | Inr opts \<Rightarrow>
          (let req = \<lparr> action = ''create'', rtype = baseEntity cls, parentType = [],
                       parentId = JUndefined, rdata = d, roptions = opts \<rparr>;
               w1 = notify (Dispatch ''modifyDocument'' req) w
           in case server req of
                Inl e \<Rightarrow> (Inl e, w1)
              | Inr resp \<Rightarrow>
                  (case handleCreate cls w1 resp of
                     (es, w2) \<Rightarrow>
                       (case js_length d of
                          Inl e \<Rightarrow> (Inl e, w2)
                        | Inr n \<Rightarrow> (Inr (if n = JNum 1 then index0 es else Many es), w2)))))"

section \<open>Update\<close>

text \<open>\<open>original[key]\<close> reads of \<open>diffObject\<close> on an Entity's data: a number or boolean
  answers \<open>undefined\<close> for every key, like an empty object.\<close>

fun as_object :: "jv \<Rightarrow> error + obj" where
  "as_object (JObj ob) = Inr ob"
| "as_object (JNum n) = Inr []"
| "as_object (JBool b) = Inr []"
| "as_object JNull = Inl TypeError"
| "as_object JUndefined = Inl TypeError"
| "as_object v = Inl Unmodelled"

text \<open>
  The \<open>data.reduce\<close> of \<open>Entity.update\<close> that stages the updates; \<open>arr\<close> is its
  accumulator. An item that is not an object has no \<open>_id\<close> (or, for \<open>null\<close> and
  \<open>undefined\<close>, cannot be asked for it).
\<close>

fun stage_updates :: "collection \<Rightarrow> bool \<Rightarrow> jv list \<Rightarrow> jv list \<Rightarrow> error + jv list" where
  "stage_updates c diff [] arr = Inr arr"
| "stage_updates c diff (d # ds) arr =
     (case d of
        JObj dob \<Rightarrow>
          if \<not> truthy (get_prop dob ''_id'') then Inl MissingId
          else
            (case collection_get c (get_prop dob ''_id'') True of
               Inl e \<Rightarrow> Inl e
             | Inr None \<Rightarrow> Inl KeyDoesNotExist
             | Inr (Some entity) \<Rightarrow>
                 if diff then
                   (case expandObject 0 dob of
                      Inl e \<Rightarrow> Inl e
                    | Inr expanded \<Rightarrow>
                        (case as_object (data entity) of
                           Inl e \<Rightarrow> Inl e
                         | Inr eob \<Rightarrow>
                             (let d' = diffObject eob expanded in
                              if keys d' = [] then stage_updates c diff ds arr
                              else stage_updates c diff ds
                                     (arr @ [JObj (assign d' ''_id'' (entity_id entity))]))))
                 else stage_updates c diff ds (arr @ [d]))
      | JNull \<Rightarrow> Inl TypeError
      | JUndefined \<Rightarrow> Inl TypeError
      | _ \<Rightarrow> Inl MissingId)"

text \<open>
  The object passed as \<open>original\<close> once \<open>mergeObject(original, other)\<close> has returned
  (default options, return value dropped, as \<open>_handleUpdate\<close> calls it). When a key of
  \<open>original\<close> contains a dot, the loop ran on the fresh object \<open>expandObject\<close> built
  and \<open>original\<close> itself is as before.
\<close>

definition mergeObject_inplace :: "jv \<Rightarrow> jv \<Rightarrow> error + jv" where
  "mergeObject_inplace original other =
     (case mergeObject default_options original other of
        Inl e \<Rightarrow> Inl e
      | Inr merged \<Rightarrow>
          (case original of
             JObj a \<Rightarrow> if \<exists>k \<in> set (keys a). has_dot k then Inr original else Inr (JObj merged)
           | _ \<Rightarrow> Inr original))"

text \<open>
  The two statements of \<open>_handleUpdate\<close> that change an Entity's data, for one record
  \<open>d\<close> of the response: the merge, then the assignment of the permission map.
\<close>

definition apply_update :: "jv \<Rightarrow> jv \<Rightarrow> error + jv" where
  "apply_update edata d =
     (case mergeObject_inplace edata d of
        Inl e \<Rightarrow> Inl e
      | Inr edata1 \<Rightarrow>
          (case member d ''permission'' of
             Inl e \<Rightarrow> Inl e
           | Inr p \<Rightarrow>
               if \<not> truthy p then Inr edata1
               else
                 (case edata1 of
                    JObj ob1 \<Rightarrow>
                      if truthy (get_prop ob1 ''permission'')
                      then Inr (JObj (assign ob1 ''permission'' p)) else Inr edata1
                  | _ \<Rightarrow> Inr edata1)))"

text \<open>
  \<open>_handleUpdate\<close>: the \<open>result.map\<close>. Each instance is changed where it is in the
  \<open>Map\<close>; \<open>_onUpdate\<close> runs \<open>prepareData\<close> and renders the instance. The array returned
  holds the instances themselves, here their keys. An exception leaves the updates
  made before it.
\<close>

fun handleUpdate_map :: "entity_class \<Rightarrow> jv list \<Rightarrow> world \<Rightarrow> (error + jv list) \<times> world" where
  "handleUpdate_map cls [] w = (Inr [], w)"
| "handleUpdate_map cls (d # ds) w =
     (case member d ''_id'' of
        Inl e \<Rightarrow> (Inl e, w)
      | Inr i \<Rightarrow>
          (case collection_get (coll w) i True of
             Inl e \<Rightarrow> (Inl e, w)
           | Inr None \<Rightarrow> (Inl KeyDoesNotExist, w)
           | Inr (Some entity) \<Rightarrow>
               (case apply_update (data entity) d of
                  Inl e \<Rightarrow> (Inl e, w)
                | Inr edata \<Rightarrow>
                    (let entity' = prepareData cls (entity\<lparr>data := edata\<rparr>);
                         w1 = notify (RenderEntity (entity_id entity'))
                                (notify (OnUpdate (entity_id entity'))
                                   (w\<lparr>coll := (coll w)\<lparr>store := AList.update i entity' (store (coll w))\<rparr>\<rparr>))
                     in case handleUpdate_map cls ds w1 of
                          (Inl e, w2) \<Rightarrow> (Inl e, w2)
                        | (Inr is, w2) \<Rightarrow> (Inr (i # is), w2)))))"

definition handleUpdate :: "entity_class \<Rightarrow> world \<Rightarrow> response \<Rightarrow> (error + entity list) \<times> world" where
  "handleUpdate cls w resp =
     (case handleUpdate_map cls (result resp) w of
        (Inl e, w1) \<Rightarrow> (Inl e, w1)
      | (Inr is, w1) \<Rightarrow>
          (let w2 = (if get_prop (roptions (request resp)) ''render'' \<noteq> JBool False
                     then notify (RenderCollection ''update'') w1 else w1)
           in (Inr (List.map_filter (map_of (store (coll w2))) is), w2)))"

text \<open>\<open>data instanceof Array ? data : [data]\<close>\<close>

definition as_batch :: "jv \<Rightarrow> jv list" where
  "as_batch d = (case d of JArr ds \<Rightarrow> ds | _ \<Rightarrow> [d])"

text \<open>\<open>Entity.update(data, options)\<close> (static)\<close>

definition Entity_update ::
  "entity_class \<Rightarrow> (request \<Rightarrow> error + response) \<Rightarrow> world \<Rightarrow> jv \<Rightarrow> jv
     \<Rightarrow> (error + entity returned) \<times> world" where
  "Entity_update cls server w d opts0 =
     (case mergeObject default_options (JObj [(''diff'', JBool True)]) opts0 of
        Inl e \<Rightarrow> (Inl e, w)
      | Inr opts \<Rightarrow>
          (let batch = as_batch d in
           case stage_updates (coll w) (truthy (get_prop opts ''diff'')) batch [] of
             Inl e \<Rightarrow> (Inl e, w)
           | Inr updates \<Rightarrow>
               if length updates = 0 then (Inr (Many []), w)
               else
                 (let req = \<lparr> action = ''update'', rtype = baseEntity cls, parentType = [],
                              parentId = JUndefined, rdata = JArr updates, roptions = opts \<rparr>;
                      w1 = notify (Dispatch ''modifyDocument'' req) w
                  in case server req of
                       Inl e \<Rightarrow> (Inl e, w1)
                     | Inr resp \<Rightarrow>
                         (case handleUpdate cls w1 resp of
                            (Inl e, w2) \<Rightarrow> (Inl e, w2)
                          | (Inr es, w2) \<Rightarrow>
                              (Inr (if length batch = 1 then index0 es else Many es), w2)))))"

section \<open>Deleting embedded entities\<close>

text \<open>\<open>getEmbeddedCollection(embeddedName)\<close> of an instance\<close>

definition getEmbeddedCollection :: "entity_class \<Rightarrow> entity \<Rightarrow> string \<Rightarrow> error + jv" where
  "getEmbeddedCollection cls e embeddedName =
     (case map_of (embeddedEntities cls) embeddedName of
        None \<Rightarrow> Inl InvalidEmbedded
      | Some field \<Rightarrow> if field = [] then Inl InvalidEmbedded else member (data e) field)"

text \<open>
  \<open>_handleDeleteEmbeddedEntity\<close>. After the parent and its embedded collection are
  found, the handler calls \<open>collection.partition(...)\<close>. A JavaScript array has no
  method \<open>partition\<close>, and no file under src/ gives it one: the one method the
  repository adds to \<open>Array.prototype\<close> is \<open>findSplice\<close> (entityCollection.js). Plain
  data holds no function either. So the call throws a \<open>TypeError\<close>, whatever value the
  collection is, before any hook has run and before anything was changed; the
  statements after it (the assignment of the surviving documents, the call of
  \<open>_onModifyEmbeddedEntity\<close>, the \<open>return deleted\<close>) are not reached.
\<close>

definition handleDeleteEmbeddedEntity ::
  "entity_class \<Rightarrow> world \<Rightarrow> response \<Rightarrow> (error + jv list) \<times> world" where
  "handleDeleteEmbeddedEntity cls w resp =
     (let ty = rtype (request resp); pid = parentId (request resp) in
      case collection_get (coll w) pid False of
        Inl e \<Rightarrow> (Inl e, w)
      | Inr None \<Rightarrow> (Inl TypeError, w)
      | Inr (Some parent) \<Rightarrow>
          (case getEmbeddedCollection cls parent ty of
             Inl e \<Rightarrow> (Inl e, w)
           | Inr collection \<Rightarrow> (Inl TypeError, w)))"

section \<open>Concrete classes, users and servers for the examples\<close>

text \<open>A class without embedded collections, as \<open>Item\<close> configures itself.\<close>

definition Item_class :: entity_class where
  "Item_class =
     \<lparr> baseEntity = ''Item'', embeddedEntities = [],
       constructEmbeddedEntity = (\<lambda>name d. Inl MustDefine) \<rparr>"

text \<open>A class with one embedded collection, as \<open>Actor\<close> configures itself
  (\<open>OwnedItem\<close> in the field \<open>items\<close>); an embedded document is kept as its data.\<close>

definition Actor_class :: entity_class where
  "Actor_class =
     \<lparr> baseEntity = ''Actor'', embeddedEntities = [(''OwnedItem'', ''items'')],
       constructEmbeddedEntity = (\<lambda>name d. Inr d) \<rparr>"

text \<open>A server that creates one record, with a fresh id, from the data of a create
  request that carries one object.\<close>

definition creating_server :: "request \<Rightarrow> error + response" where
  "creating_server req =
     Inr \<lparr> request = req,
           result = [case rdata req of
                       JObj ob \<Rightarrow> JObj (assign ob ''_id'' (JStr ''a1''))
                     | v \<Rightarrow> v],
           userId = JStr ''u1'' \<rparr>"

definition empty_world :: world where
  "empty_world = \<lparr> coll = \<lparr> source = [], store = [] \<rparr>, events = [] \<rparr>"

definition player_u1 :: user where
  "player_u1 = \<lparr> user_id = ''u1'', isGM = False \<rparr>"

section \<open>Lemmas on the helpers\<close>

lemma map_of_assign: "map_of (assign ob k v) k' = (if k' = k then Some v else map_of ob k')"
  by (simp add: assign_def update_conv')

lemma map_of_delete_key: "map_of (delete_key ob k) k' = (if k' = k then None else map_of ob k')"
  by (simp add: delete_key_def delete_conv')

lemma mergeEntry_nonobject:
  "\<not> is_object v \<Longrightarrow> \<not> enforceTypes opts \<Longrightarrow> \<exists>R. mergeEntry opts depth original k0 v = Inr R"
  by (cases v) (simp_all add: Let_def)

lemma mergeEntry_object:
  "mergeEntry opts depth original k0 (JObj vo) =
     (let k = strip_key k0;
          original1 = (if \<not> hasOwnProperty original k then assign original k (JObj []) else original)
      in case get_prop original1 k of
           JObj xo \<Rightarrow>
             (case mergeEntries opts (depth + 1) xo vo of
                Inl e \<Rightarrow> Inl e
              | Inr xo' \<Rightarrow> Inr (assign original1 k (JObj xo')))
         | x \<Rightarrow>
             if overwrite opts then
               (if ''Object'' \<noteq> getType x \<and> enforceTypes opts then Inl MismatchedTypes
                else Inr (assign original1 k (JObj vo)))
             else if x = JUndefined \<and> insertValues opts then Inr (assign original1 k (JObj vo))
             else Inr original1)"
  by (simp add: Let_def hasOwnProperty_def keys_def assign_def dom_update split: jv.splits)

lemma mergeEntry_scalar:
  "\<not> is_object v \<Longrightarrow>
   mergeEntry opts depth original k0 v =
     (let k = strip_key k0;
          toDelete = (take 2 k0 = ''-='' \<and> v = JNull);
          x = get_prop original k
      in if hasOwnProperty original k then
           (if toDelete then Inr (delete_key original k)
            else if overwrite opts then
              (if getType v \<noteq> getType x \<and> enforceTypes opts then Inl MismatchedTypes
               else Inr (assign original k v))
            else if x = JUndefined \<and> insertValues opts then Inr (assign original k v)
            else Inr original)
         else if \<not> toDelete then
           (if (depth = 1 \<and> insertKeys opts) \<or> (depth > 1 \<and> insertValues opts)
            then Inr (assign original k v) else Inr original)
         else Inr original)"
  by (cases v) (simp_all add: Let_def)

declare mergeEntry.simps [simp del]

lemma merge_total:
  "\<not> enforceTypes opts \<or> \<not> overwrite opts
     \<Longrightarrow> \<exists>R. mergeEntry opts depth original k0 v = Inr R"
  "\<not> enforceTypes opts \<or> \<not> overwrite opts
     \<Longrightarrow> \<exists>R. mergeEntries opts depth original other = Inr R"
proof (induction v and other arbitrary: depth original k0 and depth original
       rule: distinct_keys_distinct_entries.induct)
  case (1 ob)
  let ?o1 = "if \<not> hasOwnProperty original (strip_key k0)
             then assign original (strip_key k0) (JObj []) else original"
  show ?case
  proof (cases "get_prop ?o1 (strip_key k0)")
    case (JObj xo)
    from 1(1) [OF 1(2), of "depth + 1" xo] obtain xo' where
      "mergeEntries opts (depth + 1) xo ob = Inr xo'" by blast
    with JObj show ?thesis by (simp add: mergeEntry_object Let_def)
  qed (use 1(2) in \<open>auto simp: mergeEntry_object Let_def\<close>)
next
  case (4 k v rest)
  from 4(1) [OF 4(3), of depth original k] obtain R1 where
    "mergeEntry opts depth original k v = Inr R1" by blast
  with 4(2) [OF 4(3), of depth R1] show ?case by simp
qed (auto simp: mergeEntry_scalar Let_def)

lemma keys_simps [simp]: "keys [] = []" "keys ((k, v) # ob) = k # keys ob"
  by (simp_all add: keys_def)

lemma key_in_keys: "(k, v) \<in> set ob \<Longrightarrow> k \<in> set (keys ob)"
  by (force simp: keys_def)

lemma plain_entries_unprefixed:
  "plain_entries ob \<Longrightarrow> k \<in> set (keys ob) \<Longrightarrow> strip_key k = k"
  by (induction ob) (auto simp: strip_key_def)

lemma plain_entries_distinct: "plain_entries ob \<Longrightarrow> distinct (keys ob)"
  by (induction ob) auto

lemma distinct_entries_distinct: "distinct_entries ob \<Longrightarrow> distinct (keys ob)"
  by (induction ob) auto

lemma distinct_lookup: "distinct (keys ob) \<Longrightarrow> \<forall>(k, v) \<in> set ob. map_of ob k = Some v"
  by (auto simp: keys_def)

lemma reflects_lookup:
  "plain v \<Longrightarrow> reflects v v"
  "plain_entries ob \<Longrightarrow> \<forall>(k, v) \<in> set ob. map_of ro k = Some v \<Longrightarrow> reflects_entries ro ob"
proof (induction v and ob arbitrary: and ro rule: plain_plain_entries.induct)
  case (1 ob)
  from 1(2) have "\<forall>(k, v) \<in> set ob. map_of ob k = Some v"
    by (simp add: plain_entries_distinct distinct_lookup)
  with 1 show ?case by simp
qed auto

lemma reflects_entries_refl: "plain_entries ob \<Longrightarrow> reflects_entries ob ob"
  using reflects_lookup(1) [of "JObj ob"] by simp

lemma kept_lookup:
  "distinct_keys a \<Longrightarrow> kept a a"
  "distinct_entries ob \<Longrightarrow> \<forall>(k, v) \<in> set ob. map_of ro k = Some v \<Longrightarrow> kept_entries ob ro"
proof (induction a and ob arbitrary: and ro rule: distinct_keys_distinct_entries.induct)
  case (1 ob)
  from 1(2) have "\<forall>(k, v) \<in> set ob. map_of ob k = Some v"
    by (simp add: distinct_entries_distinct distinct_lookup)
  with 1 show ?case by simp
qed auto

lemma kept_entries_iff:
  "kept_entries ao ro \<longleftrightarrow>
     (\<forall>(k, a) \<in> set ao. a = JUndefined \<or> (\<exists>r. map_of ro k = Some r \<and> kept a r))"
  by (induction ao) (auto split: option.splits)

lemma reflects_entries_iff:
  "reflects_entries ro vo \<longleftrightarrow> (\<forall>(k, v) \<in> set vo. \<exists>r. map_of ro k = Some r \<and> reflects r v)"
  by (induction vo) (auto split: option.splits)

lemma mergeEntry_frame:
  "mergeEntry opts depth original k0 v = Inr R \<Longrightarrow> k \<noteq> strip_key k0
     \<Longrightarrow> map_of R k = map_of original k"
  by (cases "is_object v")
     (auto simp: mergeEntry_scalar mergeEntry_object Let_def map_of_assign map_of_delete_key
           elim!: is_object.elims split: if_splits jv.splits sum.splits)

lemma mergeEntries_frame:
  "mergeEntries opts depth original other = Inr R \<Longrightarrow> k \<notin> strip_key ` set (keys other)
     \<Longrightarrow> map_of R k = map_of original k"
proof (induction other arbitrary: original)
  case Nil
  then show ?case by simp
next
  case (Cons p other)
  obtain k0 v where p: "p = (k0, v)" by (cases p)
  from Cons.prems(1) p obtain R1 where
    1: "mergeEntry opts depth original k0 v = Inr R1"
    and 2: "mergeEntries opts depth R1 other = Inr R"
    by (auto split: sum.splits)
  from Cons.prems(2) p have "k \<noteq> strip_key k0" "k \<notin> strip_key ` set (keys other)"
    by auto
  with Cons.IH [OF 2] mergeEntry_frame [OF 1] show ?case by simp
qed

lemma has_iff_map_of: "hasOwnProperty ob k \<longleftrightarrow> map_of ob k \<noteq> None"
  by (simp add: hasOwnProperty_def keys_def map_of_eq_None_iff)

lemma merge_reflects:
  "overwrite opts \<Longrightarrow> insertKeys opts \<Longrightarrow> insertValues opts \<Longrightarrow> 1 \<le> depth
     \<Longrightarrow> plain v \<Longrightarrow> take 2 k0 \<noteq> ''-=''
     \<Longrightarrow> mergeEntry opts depth original k0 v = Inr R
     \<Longrightarrow> \<exists>r. map_of R k0 = Some r \<and> reflects r v"
  "overwrite opts \<Longrightarrow> insertKeys opts \<Longrightarrow> insertValues opts \<Longrightarrow> 1 \<le> depth
     \<Longrightarrow> plain_entries other
     \<Longrightarrow> mergeEntries opts depth original other = Inr R
     \<Longrightarrow> reflects_entries R other"
proof (induction v and other arbitrary: depth original k0 R and depth original R
       rule: plain_plain_entries.induct)
  case (1 ob)
  let ?o1 = "if \<not> hasOwnProperty original k0 then assign original k0 (JObj []) else original"
  from 1(7) have k: "strip_key k0 = k0" by (simp add: strip_key_def)
  show ?case
  proof (cases "get_prop ?o1 k0")
    case (JObj xo)
    with 1(8) k obtain xo' where m: "mergeEntries opts (depth + 1) xo ob = Inr xo'"
      and R: "R = assign ?o1 k0 (JObj xo')"
      by (auto simp: mergeEntry_object Let_def split: sum.splits)
    from 1(1) [OF 1(2) 1(3) 1(4) _ _ m] 1(6) have "reflects_entries xo' ob" by simp
    with R show ?thesis by (simp add: map_of_assign)
  next
    case JUndefined
    with 1(8) k 1(2) have "R = assign ?o1 k0 (JObj ob)"
      by (auto simp: mergeEntry_object Let_def split: if_splits)
    with 1(6) show ?thesis by (simp add: map_of_assign reflects_entries_refl)
  next
    case JNull
    with 1(8) k 1(2) have "R = assign ?o1 k0 (JObj ob)"
      by (auto simp: mergeEntry_object Let_def split: if_splits)
    with 1(6) show ?thesis by (simp add: map_of_assign reflects_entries_refl)
  next
    case (JBool b)
    with 1(8) k 1(2) have "R = assign ?o1 k0 (JObj ob)"
      by (auto simp: mergeEntry_object Let_def split: if_splits)
    with 1(6) show ?thesis by (simp add: map_of_assign reflects_entries_refl)
  next
    case (JNum n)
    with 1(8) k 1(2) have "R = assign ?o1 k0 (JObj ob)"
      by (auto simp: mergeEntry_object Let_def split: if_splits)
    with 1(6) show ?thesis by (simp add: map_of_assign reflects_entries_refl)
  next
    case (JStr str)
    with 1(8) k 1(2) have "R = assign ?o1 k0 (JObj ob)"
      by (auto simp: mergeEntry_object Let_def split: if_splits)
    with 1(6) show ?thesis by (simp add: map_of_assign reflects_entries_refl)
  next
    case (JArr xs)
    with 1(8) k 1(2) have "R = assign ?o1 k0 (JObj ob)"
      by (auto simp: mergeEntry_object Let_def split: if_splits)
    with 1(6) show ?thesis by (simp add: map_of_assign reflects_entries_refl)
  qed
next
  case (4 k v rest)
  from 4(8) obtain R1 where
    a: "mergeEntry opts depth original k v = Inr R1"
    and b: "mergeEntries opts depth R1 rest = Inr R"
    by (auto split: sum.splits)
  from 4(7) have p: "take 2 k \<noteq> ''-=''" "k \<notin> set (keys rest)" "plain v" "plain_entries rest"
    by simp_all
  from 4(1) [OF 4(3) 4(4) 4(5) 4(6) p(3) p(1) a] obtain r where
    r: "map_of R1 k = Some r" "reflects r v" by blast
  from p(2) p(4) have "k \<notin> strip_key ` set (keys rest)"
    by (auto simp: plain_entries_unprefixed)
  from mergeEntries_frame [OF b this] r have "map_of R k = Some r" by simp
  moreover from 4(2) [OF 4(3) 4(4) 4(5) 4(6) p(4) b] have "reflects_entries R rest" .
  ultimately show ?case using r by simp
qed (auto simp: mergeEntry_scalar Let_def strip_key_def map_of_assign split: if_splits)

lemma kept_entries_refl: "distinct_entries ob \<Longrightarrow> kept_entries ob ob"
  using kept_lookup(1) [of "JObj ob"] by simp

lemma kept_not_undefined:
  "kept a r \<Longrightarrow> a \<noteq> JUndefined \<Longrightarrow> r \<noteq> JUndefined"
  by (cases a) auto

lemma kept_object:
  "kept a (JObj xo) \<Longrightarrow> \<exists>ao. a = JObj ao \<and> kept_entries ao xo"
  by (cases a) auto

lemma get_prop_map_of: "map_of ob k = Some r \<Longrightarrow> get_prop ob k = r"
  by (simp add: get_prop_def)

lemma scalar_kept:
  assumes "\<not> overwrite opts" "\<not> is_object v" "take 2 k0 \<noteq> ''-=''"
    and m: "mergeEntry opts depth original k0 v = Inr R"
    and A: "kept_entries A0 original"
  shows "kept_entries A0 R"
proof -
  have "\<exists>r. map_of R k' = Some r \<and> kept a r"
    if mem: "(k', a) \<in> set A0" and nu: "a \<noteq> JUndefined" for k' a
  proof -
  from mem nu A obtain r where r: "map_of original k' = Some r" "kept a r"
    by (auto simp: kept_entries_iff)
  from assms(3) have k: "strip_key k0 = k0" by (simp add: strip_key_def)
  show ?thesis
  proof (cases "k' = k0")
    case False
    with mergeEntry_frame [OF m, of k'] k r show ?thesis by simp
  next
    case True
    with r have has: "hasOwnProperty original k0" by (simp add: has_iff_map_of)
    from True r have x: "get_prop original k0 = r" by (simp add: get_prop_map_of)
    from kept_not_undefined [OF r(2) nu] have "r \<noteq> JUndefined" .
    with m k has x assms(1,2,3) have "R = original"
      by (simp add: mergeEntry_scalar Let_def)
    with r True show ?thesis by simp
  qed
  qed
  then show ?thesis unfolding kept_entries_iff by blast
qed

lemma merge_kept:
  "\<not> overwrite opts \<Longrightarrow> plain v \<Longrightarrow> take 2 k0 \<noteq> ''-=''
     \<Longrightarrow> mergeEntry opts depth original k0 v = Inr R
     \<Longrightarrow> kept_entries A0 original \<Longrightarrow> kept_entries A0 R"
  "\<not> overwrite opts \<Longrightarrow> plain_entries other
     \<Longrightarrow> mergeEntries opts depth original other = Inr R
     \<Longrightarrow> kept_entries A0 original \<Longrightarrow> kept_entries A0 R"
proof (induction v and other arbitrary: depth original k0 R A0 and depth original R A0
       rule: plain_plain_entries.induct)
  case (1 ob)
  from 1(4) have k: "strip_key k0 = k0" by (simp add: strip_key_def)
  have "\<exists>r. map_of R k' = Some r \<and> kept a r"
    if mem: "(k', a) \<in> set A0" and nu: "a \<noteq> JUndefined" for k' a
  proof -
    from mem nu 1(6) obtain r where r: "map_of original k' = Some r" "kept a r"
      by (auto simp: kept_entries_iff)
    show ?thesis
    proof (cases "k' = k0")
      case False
      with mergeEntry_frame [OF 1(5), of k'] k r show ?thesis by simp
    next
      case True
      with r have has: "hasOwnProperty original k0" by (simp add: has_iff_map_of)
      from True r have x: "get_prop original k0 = r" by (simp add: get_prop_map_of)
      show ?thesis
      proof (cases r)
        case (JObj xo)
        with 1(5) k has x obtain xo' where m: "mergeEntries opts (depth + 1) xo ob = Inr xo'"
          and R: "R = assign original k0 (JObj xo')"
          by (auto simp: mergeEntry_object Let_def split: sum.splits)
        from r(2) JObj obtain ao where a: "a = JObj ao" "kept_entries ao xo"
          using kept_object by blast
        from 1(1) [OF 1(2) _ m a(2)] 1(3) have "kept_entries ao xo'" by simp
        with R a True show ?thesis by (simp add: map_of_assign)
      next
        case JUndefined
        with kept_not_undefined [OF r(2) nu] show ?thesis by simp
      next
        case JNull
        with 1(5) k has x 1(2) have "R = original"
          by (simp add: mergeEntry_object Let_def)
        with r True show ?thesis by simp
      next
        case (JBool b)
        with 1(5) k has x 1(2) have "R = original"
          by (simp add: mergeEntry_object Let_def)
        with r True show ?thesis by simp
      next
        case (JNum n)
        with 1(5) k has x 1(2) have "R = original"
          by (simp add: mergeEntry_object Let_def)
        with r True show ?thesis by simp
      next
        case (JStr str)
        with 1(5) k has x 1(2) have "R = original"
          by (simp add: mergeEntry_object Let_def)
        with r True show ?thesis by simp
      next
        case (JArr xs)
        with 1(5) k has x 1(2) have "R = original"
          by (simp add: mergeEntry_object Let_def)
        with r True show ?thesis by simp
      qed
    qed
  qed
  then show ?case unfolding kept_entries_iff by blast
next
  case (4 k v rest)
  from 4(5) obtain R1 where
    a: "mergeEntry opts depth original k v = Inr R1"
    and b: "mergeEntries opts depth R1 rest = Inr R"
    by (auto split: sum.splits)
  from 4(4) have p: "take 2 k \<noteq> ''-=''" "plain v" "plain_entries rest"
    by simp_all
  from 4(1) [OF 4(3) p(2) p(1) a 4(6)] have "kept_entries A0 R1" .
  from 4(2) [OF 4(3) p(3) b this] show ?case .
next
  case 3
  then show ?case by simp
qed (rule scalar_kept; simp)+

lemma expand_dotted_none: "\<forall>k \<in> set (keys ob). \<not> has_dot k \<Longrightarrow> expand_dotted ob = Inr ob"
  by (simp add: expand_dotted_def)

lemma mergeObject_undotted:
  "\<forall>k \<in> set (keys A). \<not> has_dot k \<Longrightarrow> \<forall>k \<in> set (keys B). \<not> has_dot k \<Longrightarrow> inplace opts
     \<Longrightarrow> mergeObject opts (JObj A) (JObj B) = mergeEntries opts 1 A B"
  by (simp add: mergeObject_def expand_dotted_none)

lemma findSplice_no_match:
  "\<forall>x \<in> set xs. test x = Inr False \<Longrightarrow> findSplice test xs = Inr (None, xs)"
  by (induction xs) simp_all

lemma fold_unchanged: "\<forall>key \<in> set ks. f key ob = ob \<Longrightarrow> fold f ks ob = ob"
  by (induction ks) simp_all

lemma equals_refl: "equals xs xs"
  by (simp add: equals_def list_all2_refl)

lemma diff_same:
  "original = other \<Longrightarrow> diffObject original other = []"
  "v0 = v1 \<Longrightarrow> \<not> fst (difference v0 v1)"
proof (induction original other and v0 v1 rule: diffObject_difference.induct)
  case (1 original other)
  have "fold (\<lambda>key ob.
             (case difference (get_prop original key) (get_prop other key) of
                (isDifferent, d) \<Rightarrow> if isDifferent then assign ob key d else ob))
          (keys other) [] = []"
  proof (rule fold_unchanged, rule ballI)
    fix key assume "key \<in> set (keys other)"
    from 1(1) [OF this] 1(2) have "\<not> fst (difference (get_prop original key) (get_prop other key))"
      by simp
    then show "(case difference (get_prop original key) (get_prop other key) of
                (isDifferent, d) \<Rightarrow> if isDifferent then assign [] key d else []) = []"
      by (cases "difference (get_prop original key) (get_prop other key)") simp
  qed
  then show ?case by (simp add: diffObject.simps)
next
  case (2 v0 v1)
  show ?case
  proof (cases v1)
    case (JObj o1)
    with 2 have "diffObject o1 o1 = []" by simp
    with JObj 2(2) show ?thesis by (simp add: difference.simps)
  qed (use 2(2) in \<open>simp_all add: difference.simps equals_refl\<close>)
qed

lemma keys_assign: "set (keys (assign ob k v)) = insert k (set (keys ob))"
  by (simp add: keys_def assign_def dom_update)

lemma keys_fold_diff:
  "set (keys (fold (\<lambda>key ob. (case f key of (isDifferent, d) \<Rightarrow>
                       if isDifferent then assign ob key d else ob)) ks acc))
   = set (keys acc) \<union> {k \<in> set ks. fst (f k)}"
  by (induction ks arbitrary: acc) (auto simp: keys_assign split: prod.splits)

lemma keys_diffObject:
  "set (keys (diffObject A B))
     = {k \<in> set (keys B). fst (difference (get_prop A k) (get_prop B k))}"
  using keys_fold_diff [of "\<lambda>key. difference (get_prop A key) (get_prop B key)" "keys B" "[]"]
  by (simp add: diffObject.simps keys_def)

lemma stage_updates_empty_diffs:
  assumes "\<forall>d \<in> set ds. \<exists>dob entity expanded eob.
             d = JObj dob \<and> truthy (get_prop dob ''_id'')
             \<and> collection_get c (get_prop dob ''_id'') True = Inr (Some entity)
             \<and> expandObject 0 dob = Inr expanded
             \<and> as_object (data entity) = Inr eob
             \<and> diffObject eob expanded = []"
  shows "stage_updates c True ds arr = Inr arr"
  using assms
proof (induction ds)
  case Nil
  then show ?case by simp
next
  case (Cons d ds)
  then obtain dob entity expanded eob where
    h: "d = JObj dob" "truthy (get_prop dob ''_id'')"
       "collection_get c (get_prop dob ''_id'') True = Inr (Some entity)"
       "expandObject 0 dob = Inr expanded" "as_object (data entity) = Inr eob"
       "diffObject eob expanded = []"
    by auto
  from Cons have "stage_updates c True ds arr = Inr arr" by simp
  with h show ?case by (simp del: expandObject.simps)
qed

lemma update_options_default:
  "mergeObject default_options (JObj [(''diff'', JBool True)]) JUndefined
     = Inr [(''diff'', JBool True)]"
  by (simp add: mergeObject_def expand_dotted_def has_dot_def)

lemma member_object_id: "is_object d \<Longrightarrow> member d ''_id'' = Inr (raw_id d)"
  by (cases d) (simp_all add: raw_id_def)

lemma initialize_entries_distinct:
  assumes "\<forall>d \<in> set ds. is_object d" and "distinct (map raw_id ds)"
    and "set (map raw_id ds) \<inter> fst ` set st = {}"
  shows "initialize_entries cls ds st
           = Inr (st @ map (\<lambda>d. (raw_id d, new_Entity cls d JUndefined)) ds)"
  using assms
proof (induction ds arbitrary: st)
  case Nil
  then show ?case by simp
next
  case (Cons d ds)
  let ?e = "new_Entity cls d JUndefined"
  from Cons.prems have notin: "raw_id d \<notin> fst ` set st" by auto
  then have upd: "AList.update (raw_id d) ?e st = st @ [(raw_id d, ?e)]"
    by (induction st) auto
  from Cons.prems have "set (map raw_id ds) \<inter> fst ` set (st @ [(raw_id d, ?e)]) = {}"
    by auto
  with Cons.IH [of "st @ [(raw_id d, ?e)]"] Cons.prems
  have "initialize_entries cls ds (st @ [(raw_id d, ?e)])
          = Inr ((st @ [(raw_id d, ?e)]) @ map (\<lambda>d. (raw_id d, new_Entity cls d JUndefined)) ds)"
    by simp
  with upd Cons.prems show ?case by (simp add: member_object_id)
qed

lemma is_object_has: "is_object (get_prop ob k) \<Longrightarrow> hasOwnProperty ob k"
  by (auto simp: get_prop_def has_iff_map_of split: option.splits)

lemma mergeEntry_object_stays:
  assumes "is_object (get_prop original k)" and "strip_key k0 = k \<longrightarrow> is_object v"
    and m: "mergeEntry opts depth original k0 v = Inr R"
  shows "is_object (get_prop R k)"
proof (cases "strip_key k0 = k")
  case False
  with mergeEntry_frame [OF m, of k] assms(1) show ?thesis by (simp add: get_prop_def)
next
  case True
  with assms(2) obtain vo where v: "v = JObj vo" by (cases v) auto
  from assms(1) obtain xo where x: "get_prop original k = JObj xo"
    by (cases "get_prop original k") auto
  from assms(1) have "hasOwnProperty original k" by (rule is_object_has)
  with m v x True show ?thesis
    by (auto simp: mergeEntry_object Let_def get_prop_def map_of_assign split: sum.splits)
qed

lemma mergeEntries_object_stays:
  "is_object (get_prop original k)
   \<Longrightarrow> \<forall>(k0, v) \<in> set other. strip_key k0 = k \<longrightarrow> is_object v
   \<Longrightarrow> mergeEntries opts depth original other = Inr R
   \<Longrightarrow> is_object (get_prop R k)"
proof (induction other arbitrary: original)
  case Nil
  then show ?case by simp
next
  case (Cons p other)
  obtain k0 v where p: "p = (k0, v)" by (cases p)
  from Cons.prems(3) p obtain R1 where
    1: "mergeEntry opts depth original k0 v = Inr R1"
    and 2: "mergeEntries opts depth R1 other = Inr R"
    by (auto split: sum.splits)
  from Cons.prems(2) p have "strip_key k0 = k \<longrightarrow> is_object v" by simp
  from mergeEntry_object_stays [OF Cons.prems(1) this 1] have "is_object (get_prop R1 k)" .
  from Cons.IH [OF this _ 2] Cons.prems(2) show ?case by simp
qed

lemma is_object_truthy: "is_object v \<Longrightarrow> truthy v"
  by (cases v) simp_all

section \<open>The claims\<close>

text \<open>
  C5. The claim: for a non-GM acting user the getter \<open>permission\<close> answers the user's own
  entry of the permission map whenever it is present, an explicit NONE (0) included, and
  the \<open>default\<close> entry otherwise. The code tests the entry for truth, so an entry 0 is
  passed over: on the map \<open>{default: 2, u1: 0}\<close> user \<open>u1\<close> gets 2 from the getter, while
  \<open>hasPerm\<close>, which tests \<open>Number.isInteger\<close>, finds the level to be exactly NONE.
\<close>

theorem permission_getter_skips_explicit_none:
  "Entity_permission player_u1
     (JObj [(''permission'', JObj [(''default'', JNum 2), (''u1'', JNum 0)])]) = Inr (JNum 2)
   \<and> hasPerm (JObj [(''permission'', JObj [(''default'', JNum 2), (''u1'', JNum 0)])])
        player_u1 ''NONE'' True = Inr True"
  by (simp add: Entity_permission_def hasPerm_def player_u1_def get_prop_def
        ENTITY_PERMISSIONS_def)

text \<open>
  C6. The claim: \<open>Entity.create\<close> called with a single data object (not an array), the
  server answering with one created record, resolves to that one Entity and not to an
  array. The code tests \<open>data.length === 1\<close> on the data as passed; a plain object has
  no \<open>length\<close>, so the array of the one created Entity is returned.
\<close>

theorem create_single_object_returns_array:
  "fst (Entity_create Item_class creating_server empty_world
          (JObj [(''name'', JStr ''New Entity'')]) JUndefined)
   = Inr (Many [\<lparr> data = JObj [(''name'', JStr ''New Entity''), (''_id'', JStr ''a1'')],
                   options = JObj [], embedded = [] \<rparr>])"
  by (simp add: Entity_create_def mergeObject_def expand_dotted_def default_options_def
        mergeEntry.simps keys_def has_dot_def
        hasOwnProperty_def get_prop_def assign_def creating_server_def handleCreate_def
        new_Entity_def initialize_def prepareEmbeddedEntities_def prepareData_def
        Item_class_def empty_world_def notify_def insert_entity_def entity_id_def Let_def
        strip_key_def)

text \<open>
  C9. The claim: with \<open>insertKeys: false\<close> no key absent from the original is added at
  depth 1, whether the incoming value is a scalar or a nested object. The code creates
  a missing key as \<open>{}\<close> whenever the incoming value is an object, before it looks at
  \<open>insertKeys\<close>, and fills it at depth 2 under \<open>insertValues\<close>: merging \<open>{a: {b: 1}}\<close>
  into \<open>{}\<close> adds the key \<open>a\<close>.
\<close>

theorem mergeObject_insertKeys_false_adds_object_key:
  "mergeObject (default_options\<lparr>insertKeys := False\<rparr>) (JObj [])
     (JObj [(''a'', JObj [(''b'', JNum 1)])]) = Inr [(''a'', JObj [(''b'', JNum 1)])]
   \<and> \<not> set (keys [(''a'', JObj [(''b'', JNum 1)])]) \<subseteq> set (keys [])"
  by (simp add: mergeObject_def expand_dotted_def default_options_def keys_def has_dot_def
        hasOwnProperty_def assign_def get_prop_def strip_key_def mergeEntry.simps)

text \<open>
  C10. For a collection whose raw records can all be asked for their \<open>_id\<close>, and an id
  that is the key of no entry of the store and the \<open>_id\<close> of no raw record: \<open>remove(id)\<close>
  returns without an exception and leaves the store and the raw array as they were.
\<close>

theorem remove_absent_id_is_noop:
  assumes "i \<notin> fst ` set (store c)"
    and "\<forall>e \<in> set (source c). \<exists>v. member e ''_id'' = Inr v \<and> v \<noteq> i"
  shows "remove c i = Inr c"
proof -
  let ?test = "\<lambda>e. case member e ''_id'' of Inl err \<Rightarrow> Inl err | Inr v \<Rightarrow> Inr (v = i)"
  from assms(2) have "\<forall>e \<in> set (source c). ?test e = Inr False"
    by fastforce
  then have "findSplice ?test (source c) = Inr (None, source c)"
    by (rule findSplice_no_match)
  moreover from assms(1) have "AList.delete i (store c) = store c"
    by simp
  ultimately show ?thesis
    by (simp add: remove_def)
qed

theorem remove_absent_id_is_noop_witness:
  "remove \<lparr> source = [JObj [(''_id'', JStr ''a1''), (''name'', JStr ''Hero'')]],
            store = [(JStr ''a1'', new_Entity Item_class
                        (JObj [(''_id'', JStr ''a1''), (''name'', JStr ''Hero'')]) JUndefined)] \<rparr>
          (JStr ''zz'')
   = Inr \<lparr> source = [JObj [(''_id'', JStr ''a1''), (''name'', JStr ''Hero'')]],
            store = [(JStr ''a1'', new_Entity Item_class
                        (JObj [(''_id'', JStr ''a1''), (''name'', JStr ''Hero'')]) JUndefined)] \<rparr>"
  using remove_absent_id_is_noop
    [of "JStr ''zz''"
        "\<lparr> source = [JObj [(''_id'', JStr ''a1''), (''name'', JStr ''Hero'')]],
           store = [(JStr ''a1'', new_Entity Item_class
                       (JObj [(''_id'', JStr ''a1''), (''name'', JStr ''Hero'')]) JUndefined)] \<rparr>"]
  by (simp add: get_prop_def)


text \<open>
  C3. The claim: for all plain objects A and B, the merge with \<open>overwrite\<close>, \<open>insertKeys\<close>
  and \<open>insertValues\<close> true has every key of B with B's value (recursively) and keeps
  every key of A that B lacks; with \<open>overwrite: false\<close> no existing value of A that is
  not \<open>undefined\<close> is replaced. As stated it fails on the two key notations of
  \<open>mergeObject\<close>: an entry \<open>"-=a": null\<close> of B deletes the key \<open>a\<close> of A (also with
  \<open>overwrite: false\<close>) and is itself not a key of the result, and a key \<open>"b.c"\<close> of B
  is expanded into \<open>b: {c: ...}\<close>.
\<close>

theorem mergeObject_key_notations_counterexample:
  "mergeObject default_options (JObj [(''a'', JNum 1)]) (JObj [(''-=a'', JNull)]) = Inr []
   \<and> \<not> reflects_entries [] [(''-=a'', JNull)]
   \<and> map_of [] ''a'' \<noteq> map_of [(''a'', JNum 1)] ''a''
   \<and> mergeObject (default_options\<lparr>overwrite := False\<rparr>)
        (JObj [(''a'', JNum 1)]) (JObj [(''-=a'', JNull)]) = Inr []
   \<and> \<not> kept_entries [(''a'', JNum 1)] []
   \<and> mergeObject default_options (JObj []) (JObj [(''b.c'', JNum 2)])
        = Inr [(''b'', JObj [(''c'', JNum 2)])]
   \<and> \<not> reflects_entries [(''b'', JObj [(''c'', JNum 2)])] [(''b.c'', JNum 2)]"
  by (simp add: mergeObject_def expand_dotted_def default_options_def has_dot_def
        hasOwnProperty_def assign_def delete_key_def get_prop_def strip_key_def
        mergeEntry.simps setProperty_def assign_changed_def)

text \<open>
  C3, amended. For all objects A and B whose top-level keys contain no dot, B having at
  no depth a key that starts with \<open>-=\<close> (keys of one object differing from one another):
  the merge with default options (\<open>overwrite\<close>, \<open>insertKeys\<close>, \<open>insertValues\<close> true)
  returns an object that has every key of B with B's value, recursively for nested
  objects, and in which every key of A that B lacks has the value it has in A; and with
  \<open>overwrite: false\<close>, whatever the other flags of a merge in place, the merge returns
  an object in which no value of A other than \<open>undefined\<close> has been replaced.
\<close>

theorem mergeObject_plain_objects:
  assumes "\<forall>k \<in> set (keys A). \<not> has_dot k" and "\<forall>k \<in> set (keys B). \<not> has_dot k"
    and "plain_entries B" and "distinct_entries A"
  shows "(\<exists>R. mergeObject default_options (JObj A) (JObj B) = Inr R
            \<and> reflects_entries R B
            \<and> (\<forall>k \<in> set (keys A). k \<notin> set (keys B) \<longrightarrow> map_of R k = map_of A k))
       \<and> (\<forall>opts. \<not> overwrite opts \<and> inplace opts \<longrightarrow>
            (\<exists>R. mergeObject opts (JObj A) (JObj B) = Inr R \<and> kept_entries A R))"
proof (intro conjI allI impI)
  have d: "inplace default_options" "\<not> enforceTypes default_options"
    "overwrite default_options" "insertKeys default_options" "insertValues default_options"
    by (simp_all add: default_options_def)
  from merge_total(2) [of default_options 1 A B] d obtain R where
    R: "mergeEntries default_options 1 A B = Inr R" by auto
  have "reflects_entries R B"
    using merge_reflects(2) [OF d(3) d(4) d(5) _ assms(3) R] by simp
  moreover have "map_of R k = map_of A k" if "k \<notin> set (keys B)" for k
  proof -
    from assms(3) that have "k \<notin> strip_key ` set (keys B)"
      by (auto simp: plain_entries_unprefixed)
    from mergeEntries_frame [OF R this] show ?thesis .
  qed
  ultimately show "\<exists>R. mergeObject default_options (JObj A) (JObj B) = Inr R
      \<and> reflects_entries R B
      \<and> (\<forall>k \<in> set (keys A). k \<notin> set (keys B) \<longrightarrow> map_of R k = map_of A k)"
    using R mergeObject_undotted [OF assms(1) assms(2) d(1)] by auto
next
  fix opts :: merge_options
  assume o: "\<not> overwrite opts \<and> inplace opts"
  from merge_total(2) [of opts 1 A B] o obtain R where
    R: "mergeEntries opts 1 A B = Inr R" by auto
  from o have "\<not> overwrite opts" by simp
  from merge_kept(2) [OF this assms(3) R kept_entries_refl [OF assms(4)]]
  have "kept_entries A R" .
  with R mergeObject_undotted [OF assms(1) assms(2), of opts] o
  show "\<exists>R. mergeObject opts (JObj A) (JObj B) = Inr R \<and> kept_entries A R" by auto
qed

theorem mergeObject_plain_objects_witness:
  "(\<exists>R. mergeObject default_options
          (JObj [(''name'', JStr ''Hero''), (''hp'', JObj [(''value'', JNum 5), (''max'', JNum 10)])])
          (JObj [(''hp'', JObj [(''value'', JNum 7)]), (''img'', JStr ''hero'')]) = Inr R
        \<and> reflects_entries R [(''hp'', JObj [(''value'', JNum 7)]), (''img'', JStr ''hero'')]
        \<and> map_of R ''name'' = Some (JStr ''Hero''))
   \<and> (\<exists>R. mergeObject (default_options\<lparr>overwrite := False\<rparr>)
          (JObj [(''name'', JStr ''Hero''), (''hp'', JObj [(''value'', JNum 5), (''max'', JNum 10)])])
          (JObj [(''hp'', JObj [(''value'', JNum 7)]), (''img'', JStr ''hero'')]) = Inr R
        \<and> kept_entries
             [(''name'', JStr ''Hero''), (''hp'', JObj [(''value'', JNum 5), (''max'', JNum 10)])] R)"
  using mergeObject_plain_objects
    [of "[(''name'', JStr ''Hero''), (''hp'', JObj [(''value'', JNum 5), (''max'', JNum 10)])]"
        "[(''hp'', JObj [(''value'', JNum 7)]), (''img'', JStr ''hero'')]"]
  by (auto simp: has_dot_def default_options_def)

text \<open>
  C4. \<open>diffObject(X, X)\<close> is the empty object for every object \<open>X\<close>, arrays among its
  values included; and for any two objects, when both hold under a key \<open>k\<close> arrays of
  the same length with equal elements at every index, the diff has no entry for \<open>k\<close>.
  The comparison of two arrays is \<open>equals\<close>, taken from the spec.
\<close>

theorem diffObject_no_change_and_arrays:
  "diffObject X X = []
   \<and> (get_prop A k = JArr xs \<and> get_prop B k = JArr ys \<and> length xs = length ys
        \<and> (\<forall>i < length xs. xs ! i = ys ! i)
      \<longrightarrow> k \<notin> set (keys (diffObject A B)))"
proof (intro conjI impI)
  show "diffObject X X = []" by (rule diff_same(1)) simp
next
  assume h: "get_prop A k = JArr xs \<and> get_prop B k = JArr ys \<and> length xs = length ys
        \<and> (\<forall>i < length xs. xs ! i = ys ! i)"
  then have "equals xs ys" by (simp add: equals_def list_all2_conv_all_nth)
  with h have "\<not> fst (difference (get_prop A k) (get_prop B k))"
    by (simp add: difference.simps)
  then show "k \<notin> set (keys (diffObject A B))" by (simp add: keys_diffObject)
qed

theorem diffObject_no_change_and_arrays_witness:
  "diffObject [(''name'', JStr ''Hero''), (''tags'', JArr [JNum 1, JStr ''a''])]
              [(''name'', JStr ''Hero''), (''tags'', JArr [JNum 1, JStr ''a''])] = []
   \<and> ''tags'' \<notin> set (keys (diffObject
        [(''name'', JStr ''Hero''), (''tags'', JArr [JNum 1, JStr ''a''])]
        [(''name'', JStr ''Zero''), (''tags'', JArr [JNum 1, JStr ''a''])]))"
  using diffObject_no_change_and_arrays
    [of "[(''name'', JStr ''Hero''), (''tags'', JArr [JNum 1, JStr ''a''])]"
        "[(''name'', JStr ''Hero''), (''tags'', JArr [JNum 1, JStr ''a''])]" "''tags''"
        "[JNum 1, JStr ''a'']"
        "[(''name'', JStr ''Zero''), (''tags'', JArr [JNum 1, JStr ''a''])]"
        "[JNum 1, JStr ''a'']"]
  by (simp add: get_prop_def)

text \<open>
  C1. \<open>Entity.update\<close> with the \<open>diff\<close> option true after the merge of the caller's
  options over \<open>{diff: true}\<close> (as it is when the caller leaves it out): if every item
  of the batch is an object with an \<open>_id\<close> under which a live Entity is stored, and
  \<open>diffObject\<close> of that Entity's data and the expanded item is empty, then the call
  resolves with the empty array, whatever the server would answer, and leaves the
  collection and the notifications as they were: nothing is dispatched.
\<close>

theorem update_empty_diffs_no_dispatch:
  assumes "mergeObject default_options (JObj [(''diff'', JBool True)]) opts0 = Inr opts"
    and "truthy (get_prop opts ''diff'')"
    and "\<forall>d \<in> set (as_batch d0). \<exists>dob entity expanded eob.
             d = JObj dob \<and> truthy (get_prop dob ''_id'')
             \<and> collection_get (coll w) (get_prop dob ''_id'') True = Inr (Some entity)
             \<and> expandObject 0 dob = Inr expanded
             \<and> as_object (data entity) = Inr eob
             \<and> diffObject eob expanded = []"
  shows "Entity_update cls server w d0 opts0 = (Inr (Many []), w)"
  using assms(1,2) stage_updates_empty_diffs [OF assms(3), of "[]"]
  by (simp add: Entity_update_def)

theorem update_empty_diffs_no_dispatch_witness:
  "Entity_update Item_class creating_server
     \<lparr> coll = \<lparr> source = [JObj [(''_id'', JStr ''a1''), (''name'', JStr ''same-name'')]],
                store = [(JStr ''a1'',
                          \<lparr> data = JObj [(''_id'', JStr ''a1''), (''name'', JStr ''same-name'')],
                            options = JObj [], embedded = [] \<rparr>)] \<rparr>,
       events = [] \<rparr>
     (JObj [(''_id'', JStr ''a1''), (''name'', JStr ''same-name'')]) JUndefined
   = (Inr (Many []),
      \<lparr> coll = \<lparr> source = [JObj [(''_id'', JStr ''a1''), (''name'', JStr ''same-name'')]],
                 store = [(JStr ''a1'',
                           \<lparr> data = JObj [(''_id'', JStr ''a1''), (''name'', JStr ''same-name'')],
                             options = JObj [], embedded = [] \<rparr>)] \<rparr>,
        events = [] \<rparr>)"
proof -
  have d: "diffObject [(''_id'', JStr ''a1''), (''name'', JStr ''same-name'')]
                      [(''_id'', JStr ''a1''), (''name'', JStr ''same-name'')] = []"
    by (simp add: diffObject.simps difference.simps keys_def get_prop_def)
  show ?thesis
    by (rule update_empty_diffs_no_dispatch [OF update_options_default])
       (simp_all add: get_prop_def as_batch_def collection_get_def setProperty_def
          assign_changed_def has_dot_def
          assign_def d)
qed

text \<open>
  C7. For any class, and any array of N raw records that are objects with ids that
  differ from one another: \<open>new EntityCollection(data)\<close> returns without an exception,
  its store holds exactly N instances, in the order of the records, and \<open>get(id)\<close>
  returns the instance built from the record with that id. This holds whatever the
  initialisation of a record does: \<open>new_Entity\<close> is the instance \<open>initialize\<close> leaves,
  also when \<open>prepareEmbeddedEntities\<close> threw and the exception went to the console.
\<close>

theorem collection_bootstrap:
  assumes "\<forall>d \<in> set raw. is_object d" and "distinct (map raw_id raw)"
  shows "\<exists>c. new_EntityCollection cls raw = Inr c
           \<and> length (entities c) = length raw
           \<and> entities c = map (\<lambda>d. new_Entity cls d JUndefined) raw
           \<and> (\<forall>d \<in> set raw.
                 collection_get c (raw_id d) False = Inr (Some (new_Entity cls d JUndefined)))"
proof -
  let ?st = "map (\<lambda>d. (raw_id d, new_Entity cls d JUndefined)) raw"
  from initialize_entries_distinct [OF assms, of "[]" cls]
  have i: "initialize_entries cls raw [] = Inr ?st" by simp
  have "map_of ?st (raw_id d) = Some (new_Entity cls d JUndefined)" if "d \<in> set raw" for d
  proof -
    from that have "(raw_id d, new_Entity cls d JUndefined) \<in> set ?st" by auto
    moreover from assms(2) have "distinct (map fst ?st)" by (simp add: comp_def)
    ultimately show ?thesis by (rule map_of_is_SomeI [rotated])
  qed
  with i show ?thesis
    by (simp add: new_EntityCollection_def entities_def collection_get_def comp_def)
qed

theorem collection_bootstrap_witness:
  "snd (initialize Actor_class
          \<lparr> data = JObj [(''_id'', JStr ''a2''), (''name'', JStr ''Bad'')],
            options = JObj [], embedded = [] \<rparr>) = Some TypeError
   \<and> (\<exists>c. new_EntityCollection Actor_class
              [JObj [(''_id'', JStr ''a1''), (''name'', JStr ''Hero''), (''items'', JArr [])],
               JObj [(''_id'', JStr ''a2''), (''name'', JStr ''Bad'')]] = Inr c
          \<and> length (entities c) = 2
          \<and> collection_get c (JStr ''a1'') False
              = Inr (Some \<lparr> data = JObj [(''_id'', JStr ''a1''), (''name'', JStr ''Hero''),
                                          (''items'', JArr [])],
                             options = JObj [], embedded = [(''items'', [])] \<rparr>)
          \<and> collection_get c (JStr ''a2'') False
              = Inr (Some \<lparr> data = JObj [(''_id'', JStr ''a2''), (''name'', JStr ''Bad'')],
                             options = JObj [], embedded = [] \<rparr>))"
  using collection_bootstrap
    [of "[JObj [(''_id'', JStr ''a1''), (''name'', JStr ''Hero''), (''items'', JArr [])],
          JObj [(''_id'', JStr ''a2''), (''name'', JStr ''Bad'')]]" Actor_class]
  by (auto simp: raw_id_def get_prop_def initialize_def new_Entity_def prepareData_def
        prepareEmbeddedEntities_def Actor_class_def hasOwnProperty_def keys_def)

text \<open>
  C8. The claim: after a delete response for an embedded type of a parent, the parent's
  raw array is the prior array without the documents whose \<open>_id\<close> is listed, the
  per-child hook has run for each of them, and the handler returns them without an
  exception. The handler's docstring promises the same ("An Array of deleted
  EmbeddedDocument data"). The code reaches \<open>collection.partition\<close>, which no array has,
  and throws: for an Actor with three owned items and a response that lists the second,
  the handler ends in a \<open>TypeError\<close> and the Actor still holds all three.
\<close>

theorem handleDeleteEmbeddedEntity_throws:
  "handleDeleteEmbeddedEntity Actor_class
     \<lparr> coll = \<lparr> source = [],
                store = [(JStr ''a1'',
                  \<lparr> data = JObj [(''_id'', JStr ''a1''), (''name'', JStr ''Hero''),
                       (''items'', JArr [JObj [(''_id'', JStr ''i1'')], JObj [(''_id'', JStr ''i2'')],
                                        JObj [(''_id'', JStr ''i3'')]])],
                    options = JObj [], embedded = [] \<rparr>)] \<rparr>,
       events = [] \<rparr>
     \<lparr> request = \<lparr> action = ''delete'', rtype = ''OwnedItem'', parentType = ''Actor'',
                     parentId = JStr ''a1'', rdata = JArr [JStr ''i2''], roptions = [] \<rparr>,
       result = [JStr ''i2''], userId = JStr ''u1'' \<rparr>
   = (Inl TypeError,
      \<lparr> coll = \<lparr> source = [],
                 store = [(JStr ''a1'',
                   \<lparr> data = JObj [(''_id'', JStr ''a1''), (''name'', JStr ''Hero''),
                        (''items'', JArr [JObj [(''_id'', JStr ''i1'')], JObj [(''_id'', JStr ''i2'')],
                                         JObj [(''_id'', JStr ''i3'')]])],
                     options = JObj [], embedded = [] \<rparr>)] \<rparr>,
        events = [] \<rparr>)"
  by (simp add: handleDeleteEmbeddedEntity_def collection_get_def getEmbeddedCollection_def
        Actor_class_def get_prop_def)

text \<open>
  C2. The claim: when a record of an update response contains a permission map and the
  live Entity has one, then after the apply step the Entity's \<open>data.permission\<close> is
  exactly the incoming map, while every other field is deep-merged in place, the
  incoming value winning. As stated it fails in two ways. The permission map is
  assigned only if the Entity still has one after the merge, and an entry
  \<open>"-=permission": null\<close> of the record has deleted it by then. And when a key of the
  Entity's data contains a dot, \<open>mergeObject\<close> merges into the copy \<open>expandObject\<close>
  made and the Entity's data receives no field of the record but the permission map.
\<close>

theorem apply_update_counterexample:
  "apply_update
     (JObj [(''_id'', JStr ''a1''), (''permission'', JObj [(''default'', JNum 0), (''u1'', JNum 3)])])
     (JObj [(''_id'', JStr ''a1''), (''permission'', JObj [(''default'', JNum 1)]),
            (''-=permission'', JNull)])
   = Inr (JObj [(''_id'', JStr ''a1'')])
   \<and> apply_update
     (JObj [(''_id'', JStr ''a1''), (''a.b'', JNum 1),
            (''permission'', JObj [(''default'', JNum 0), (''u1'', JNum 3)])])
     (JObj [(''_id'', JStr ''a1''), (''hp'', JNum 5), (''permission'', JObj [(''default'', JNum 1)])])
   = Inr (JObj [(''_id'', JStr ''a1''), (''a.b'', JNum 1),
                (''permission'', JObj [(''default'', JNum 1)])])"
  by (simp add: apply_update_def mergeObject_inplace_def mergeObject_def expand_dotted_def
        default_options_def has_dot_def hasOwnProperty_def assign_def delete_key_def
        get_prop_def strip_key_def mergeEntry.simps setProperty_def assign_changed_def keys_def)

text \<open>
  C2, amended. Let a record of an update response be an object that contains a
  permission map, and the live Entity's data an object that has one and has no key
  with a dot. Let the record, as \<open>mergeObject\<close> expands it, address the key
  \<open>permission\<close> with objects only (so not with \<open>"-=permission": null\<close>). Then the apply
  step returns without an exception; afterwards the Entity's \<open>data.permission\<close> is
  exactly the incoming map, and every other key holds what the deep merge of the
  record into the data returns for it: in particular, when the expanded record is
  plain (no key starting with \<open>-=\<close>), every key of it other than \<open>permission\<close> is
  present with the incoming value, recursively for nested objects, and every key of
  the data that the record does not have is as before.
\<close>

theorem apply_update_replaces_permission:
  assumes "get_prop b ''permission'' = JObj pm" and "get_prop a ''permission'' = JObj old"
    and "\<forall>k \<in> set (keys a). \<not> has_dot k"
    and "expand_dotted b = Inr b2"
    and "\<forall>(k0, v) \<in> set b2. strip_key k0 = ''permission'' \<longrightarrow> is_object v"
  shows "\<exists>merged r.
           mergeObject default_options (JObj a) (JObj b) = Inr merged
         \<and> apply_update (JObj a) (JObj b) = Inr (JObj r)
         \<and> map_of r ''permission'' = Some (JObj pm)
         \<and> (\<forall>k. k \<noteq> ''permission'' \<longrightarrow> map_of r k = map_of merged k)
         \<and> (plain_entries b2 \<longrightarrow>
              (\<forall>(k, v) \<in> set b2. k \<noteq> ''permission'' \<longrightarrow>
                 (\<exists>x. map_of r k = Some x \<and> reflects x v))
              \<and> (\<forall>k. k \<noteq> ''permission'' \<and> k \<notin> set (keys b2) \<longrightarrow> map_of r k = map_of a k))"
proof -
  have d: "inplace default_options" "\<not> enforceTypes default_options"
    "overwrite default_options" "insertKeys default_options" "insertValues default_options"
    by (simp_all add: default_options_def)
  from merge_total(2) [of default_options 1 a b2] d obtain merged where
    m: "mergeEntries default_options 1 a b2 = Inr merged" by auto
  from assms(3,4) d(1) m have mo: "mergeObject default_options (JObj a) (JObj b) = Inr merged"
    by (simp add: mergeObject_def expand_dotted_none)
  from assms(2) have "is_object (get_prop a ''permission'')" by simp
  from mergeEntries_object_stays [OF this assms(5) m]
  have t: "truthy (get_prop merged ''permission'')" by (rule is_object_truthy)
  let ?r = "assign merged ''permission'' (JObj pm)"
  from mo assms(1,3) t have au: "apply_update (JObj a) (JObj b) = Inr (JObj ?r)"
    by (simp add: apply_update_def mergeObject_inplace_def)
  have r1: "map_of ?r ''permission'' = Some (JObj pm)" by (simp add: map_of_assign)
  have r2: "\<forall>k. k \<noteq> ''permission'' \<longrightarrow> map_of ?r k = map_of merged k"
    by (simp add: map_of_assign)
  have r3: "(\<forall>(k, v) \<in> set b2. k \<noteq> ''permission'' \<longrightarrow>
                 (\<exists>x. map_of ?r k = Some x \<and> reflects x v))
            \<and> (\<forall>k. k \<noteq> ''permission'' \<and> k \<notin> set (keys b2) \<longrightarrow> map_of ?r k = map_of a k)"
    if p: "plain_entries b2"
  proof (intro conjI allI impI)
    from merge_reflects(2) [OF d(3) d(4) d(5) _ p m] have "reflects_entries merged b2" by simp
    then show "\<forall>(k, v) \<in> set b2. k \<noteq> ''permission'' \<longrightarrow>
                 (\<exists>x. map_of ?r k = Some x \<and> reflects x v)"
      by (auto simp: reflects_entries_iff map_of_assign)
  next
    fix k assume k: "k \<noteq> ''permission'' \<and> k \<notin> set (keys b2)"
    with p have "k \<notin> strip_key ` set (keys b2)" by (auto simp: plain_entries_unprefixed)
    from mergeEntries_frame [OF m this] k show "map_of ?r k = map_of a k"
      by (simp add: map_of_assign)
  qed
  from mo au r1 r2 r3 show ?thesis by blast
qed

theorem apply_update_replaces_permission_witness:
  "\<exists>r. apply_update
          (JObj [(''_id'', JStr ''a1''), (''hp'', JNum 1),
                 (''permission'', JObj [(''default'', JNum 0), (''u1'', JNum 3)])])
          (JObj [(''_id'', JStr ''a1''), (''hp'', JNum 2),
                 (''permission'', JObj [(''default'', JNum 1)])]) = Inr (JObj r)
      \<and> map_of r ''permission'' = Some (JObj [(''default'', JNum 1)])
      \<and> map_of r ''hp'' = Some (JNum 2)"
  using apply_update_replaces_permission
    [of "[(''_id'', JStr ''a1''), (''hp'', JNum 2), (''permission'', JObj [(''default'', JNum 1)])]"
        "[(''default'', JNum 1)]"
        "[(''_id'', JStr ''a1''), (''hp'', JNum 1),
          (''permission'', JObj [(''default'', JNum 0), (''u1'', JNum 3)])]"
        "[(''default'', JNum 0), (''u1'', JNum 3)]"
        "[(''_id'', JStr ''a1''), (''hp'', JNum 2), (''permission'', JObj [(''default'', JNum 1)])]"]
  by (auto simp: get_prop_def has_dot_def expand_dotted_def strip_key_def)

end
